theory Spec2Isabelle
  imports Main "HOL-Library.Char_ord" "HOL-Library.Sublist"
begin

section \<open>Python strings\<close>

text \<open>
  The module is Python 2: a \<open>str\<close> is a byte string, modelled as \<open>string\<close>
  (a \<open>char list\<close>). The character classes of the patterns are ASCII ranges.
\<close>

definition newline :: char where
  "newline = CHR 0x0A"

definition ascii_lower :: "char \<Rightarrow> bool" where
  "ascii_lower c = (CHR ''a'' \<le> c \<and> c \<le> CHR ''z'')"

definition ascii_upper :: "char \<Rightarrow> bool" where
  "ascii_upper c = (CHR ''A'' \<le> c \<and> c \<le> CHR ''Z'')"

definition ascii_digit :: "char \<Rightarrow> bool" where
  "ascii_digit c = (CHR ''0'' \<le> c \<and> c \<le> CHR ''9'')"

definition ascii_alpha :: "char \<Rightarrow> bool" where
  "ascii_alpha c = (ascii_lower c \<or> ascii_upper c)"

text \<open>\<open>s.upper()\<close> on a byte string: the letters \<open>a\<close> to \<open>z\<close> are replaced, the rest kept.\<close>

definition upper_char :: "char \<Rightarrow> char" where
  "upper_char c =
     (case map_of (zip ''abcdefghijklmnopqrstuvwxyz'' ''ABCDEFGHIJKLMNOPQRSTUVWXYZ'') c of
        Some u \<Rightarrow> u
      | None \<Rightarrow> c)"

definition upper :: "string \<Rightarrow> string" where
  "upper s = map upper_char s"

text \<open>\<open>s.startswith(t)\<close> and \<open>s.endswith(t)\<close>.\<close>

definition startswith :: "string \<Rightarrow> string \<Rightarrow> bool" where
  "startswith s t = prefix t s"

definition endswith :: "string \<Rightarrow> string \<Rightarrow> bool" where
  "endswith s t = suffix t s"

text \<open>\<open>-1 != s.find(t)\<close>: \<open>t\<close> occurs in \<open>s\<close>.\<close>

fun contains :: "string \<Rightarrow> string \<Rightarrow> bool" where
  "contains [] t = (t = [])"
| "contains (c # s) t = (prefix t (c # s) \<or> contains s t)"

text \<open>\<open>s.replace("\n", "")\<close>: every newline is removed.\<close>

definition remove_newlines :: "string \<Rightarrow> string" where
  "remove_newlines s = filter (\<lambda>c. c \<noteq> newline) s"

text \<open>\<open>s.count(c)\<close> and \<open>s.split(c)\<close> for a separator of one character.\<close>

definition count_char :: "string \<Rightarrow> char \<Rightarrow> nat" where
  "count_char s c = length (filter (\<lambda>x. x = c) s)"

fun split_char :: "string \<Rightarrow> char \<Rightarrow> string list" where
  "split_char [] c = [[]]"
| "split_char (x # s) c =
     (if x = c then [] # split_char s c
      else (case split_char s c of
              [] \<Rightarrow> [[x]]
            | p # ps \<Rightarrow> (x # p) # ps))"

text \<open>
  The slice \<open>s[i:j]\<close> as \<open>handle_path\<close> uses it: \<open>i\<close> is a length (not negative),
  \<open>j\<close> is \<open>None\<close> (to the end) or \<open>-k\<close> for a length \<open>k > 0\<close> (the last \<open>k\<close>
  characters are left out; nothing is left when the string is shorter than \<open>k\<close>).
\<close>

definition slice_from_to_end :: "string \<Rightarrow> nat \<Rightarrow> nat option \<Rightarrow> string" where
  "slice_from_to_end s i j =
     (case j of
        None \<Rightarrow> drop i s
      | Some k \<Rightarrow> drop i (take (length s - k) s))"

text \<open>\<open>os.path.split(p)[1]\<close>: what follows the last slash.\<close>

definition path_tail :: "string \<Rightarrow> string" where
  "path_tail p = rev (takeWhile (\<lambda>c. c \<noteq> CHR ''/'') (rev p))"

section \<open>Regular expressions\<close>

text \<open>
  The fragment of Python's \<open>re\<close> language the module's patterns are written in.
  Repetition is only ever applied to a character class: \<open>Class p lo hi\<close> is
  \<open>[p]{lo,hi}\<close>, with \<open>hi = None\<close> for no upper bound (\<open>*\<close> is \<open>Class p 0 None\<close>,
  \<open>+\<close> is \<open>Class p 1 None\<close>). \<open>Opt r\<close> is \<open>r?\<close>, \<open>Group r\<close> is a capturing
  \<open>(r)\<close>, \<open>Eos\<close> is \<open>$\<close> without the MULTILINE flag: the end of the string, or
  just before a newline that ends the string.
\<close>

datatype regex =
    Lit string
  | Class "char \<Rightarrow> bool" nat "nat option"
  | Seq regex regex
  | Opt regex
  | Group regex
  | Eos

fun ngroups :: "regex \<Rightarrow> nat" where
  "ngroups (Lit t) = 0"
| "ngroups (Class p lo hi) = 0"
| "ngroups (Seq a b) = ngroups a + ngroups b"
| "ngroups (Opt a) = ngroups a"
| "ngroups (Group a) = Suc (ngroups a)"
| "ngroups Eos = 0"

text \<open>
  \<open>rmatch r s\<close> lists every way \<open>r\<close> matches a prefix of \<open>s\<close>, each as the groups
  captured (\<open>None\<close> for a group that took no part) and the rest of the string, in the
  order in which the backtracking matcher of \<open>re\<close> tries them: a greedy repetition
  takes as many characters as it can first and gives them back one at a time, an
  optional part is tried before it is skipped, and the alternatives of the left part
  of a sequence are each followed through before the next is taken. The match that
  \<open>re\<close> reports is the head of the list.
\<close>

fun rmatch :: "regex \<Rightarrow> string \<Rightarrow> (string option list \<times> string) list" where
  "rmatch (Lit t) s = (if prefix t s then [([], drop (length t) s)] else [])"
| "rmatch (Class p lo hi) s =
     (let n = length (takeWhile p s);
          m = (case hi of None \<Rightarrow> n | Some h \<Rightarrow> min h n)
      in map (\<lambda>k. ([], drop k s)) (rev [lo..<Suc m]))"
| "rmatch (Seq a b) s =
     concat (map (\<lambda>(c1, r1). map (\<lambda>(c2, r2). (c1 @ c2, r2)) (rmatch b r1)) (rmatch a s))"
| "rmatch (Opt a) s = rmatch a s @ [(replicate (ngroups a) None, s)]"
| "rmatch (Group a) s =
     map (\<lambda>(c, r). (Some (take (length s - length r) s) # c, r)) (rmatch a s)"
| "rmatch Eos s = (if s = [] \<or> s = [newline] then [([], s)] else [])"

text \<open>
  \<open>re.match\<close>: the first match at the start of the string. \<open>re.search\<close> and
  \<open>re.findall\<close> with a pattern that begins with \<open>^\<close> (no MULTILINE flag) can only
  match there, so their first match is this one.
\<close>

definition re_match :: "regex \<Rightarrow> string \<Rightarrow> string option list option" where
  "re_match r s = (case rmatch r s of [] \<Rightarrow> None | (caps, rest) # _ \<Rightarrow> Some caps)"

text \<open>\<open>first_match r s c rest\<close>: the match \<open>re\<close> reports for \<open>r\<close> on \<open>s\<close>.\<close>

definition first_match :: "regex \<Rightarrow> string \<Rightarrow> string option list \<Rightarrow> string \<Rightarrow> bool" where
  "first_match r s c rest = (\<exists>others. rmatch r s = (c, rest) # others)"

text \<open>
  Group \<open>n\<close> (counted from 0) of a match as \<open>re.findall\<close> and \<open>match.groups(0)\<close>
  give it when the group took part; \<open>findall\<close> gives the empty string otherwise.
\<close>

definition group_text :: "string option list \<Rightarrow> nat \<Rightarrow> string" where
  "group_text caps n =
     (if n < length caps then (case caps ! n of Some g \<Rightarrow> g | None \<Rightarrow> []) else [])"

section \<open>Errors\<close>

text \<open>
  Every \<open>raise\<close> of the module is one constructor, named after the condition it
  signals and carrying what the exception's message is built from:
  \<^item> \<open>InvalidLocaleCode l\<close>: \<open>ValueError("Invalid locale_code '%s'" % (locale,))\<close>;
  \<^item> \<open>InvalidNode n\<close>: \<open>RuntimeError("Invalid node '%s', expected 'path'" % nodeName)\<close>;
  \<^item> \<open>MissingLocationAttribute\<close>: \<open>RuntimeError("Path node without location attribute")\<close>;
  \<^item> \<open>MalformedFilterPattern f\<close>:
    \<open>RuntimeError("Filter string '%s' must contain the placeholder * exactly once" % userfilter)\<close>;
  \<^item> \<open>EmptyKeepSet\<close>: \<open>RuntimeError('Found no locales to keep')\<close>;
  \<^item> \<open>ExecutableNotFound exe\<close>: \<open>RuntimeError(_('Executable not found: %s') % exe)\<close>;
  \<^item> \<open>FatalCommandOutput line\<close>: \<open>RuntimeError(line)\<close> inside a read loop;
  \<^item> \<open>CommandFailed line\<close>: \<open>RuntimeError(non_blank_line)\<close> after the read loop;
  \<^item> \<open>CurrentlyRunning name\<close>: \<open>RuntimeError(_("%s cannot be cleaned because it is
    currently running.  Close it, and try again.") % name)\<close>;
  \<^item> \<open>InvalidSize token\<close>: the \<open>ValueError\<close> of the size parser;
  \<^item> \<open>UnpackError\<close>: the \<open>ValueError\<close> of unpacking a list that does not have
    two elements into two variables.
\<close>

datatype error =
    InvalidLocaleCode string
  | InvalidNode string
  | MissingLocationAttribute
  | MalformedFilterPattern string
  | EmptyKeepSet
  | ExecutableNotFound string
  | FatalCommandOutput string
  | CommandFailed string
  | CurrentlyRunning string
  | InvalidSize string
  | UnpackError

section \<open>locale_to_language\<close>

text \<open>
  The pattern of \<open>locale_to_language\<close>, after its leading \<open>^\<close>:
  \<^verbatim>\<open>([a-z]{2,3})([_-][a-zA-Z]{2,4})?(\.[a-zA-Z0-9-]*)?(@[a-zA-Z]*)?$\<close>
\<close>

definition locale_pattern :: regex where
  "locale_pattern =
     Seq (Group (Class ascii_lower 2 (Some 3)))
    (Seq (Opt (Group (Seq (Class (\<lambda>c. c = CHR ''_'' \<or> c = CHR ''-'') 1 (Some 1))
                          (Class ascii_alpha 2 (Some 4)))))
    (Seq (Opt (Group (Seq (Lit ''.'')
                          (Class (\<lambda>c. ascii_alpha c \<or> ascii_digit c \<or> c = CHR ''-'') 0 None))))
    (Seq (Opt (Group (Seq (Lit ''@'') (Class ascii_alpha 0 None))))
         Eos)))"

definition locale_to_language :: "string \<Rightarrow> error + string" where
  "locale_to_language locale =
     (if ''klingon'' = locale then Inr locale
      else (case re_match locale_pattern locale of
              None \<Rightarrow> Inl (InvalidLocaleCode locale)
            | Some caps \<Rightarrow> Inr (group_text caps 0)))"

text \<open>
  The shape the pattern describes, part by part: a core of two or three lower-case
  letters, then optionally \<open>_\<close> or \<open>-\<close> and two to four letters (region or script),
  optionally \<open>.\<close> and letters, digits and hyphens (encoding), optionally \<open>@\<close> and
  letters (variant). An absent part is the empty string.
\<close>

definition language_core :: "string \<Rightarrow> bool" where
  "language_core c = ((length c = 2 \<or> length c = 3) \<and> list_all ascii_lower c)"

definition region_suffix :: "string \<Rightarrow> bool" where
  "region_suffix r =
     (case r of
        [] \<Rightarrow> True
      | c # t \<Rightarrow> (c = CHR ''_'' \<or> c = CHR ''-'') \<and> 2 \<le> length t \<and> length t \<le> 4 \<and>
                 list_all ascii_alpha t)"

definition encoding_suffix :: "string \<Rightarrow> bool" where
  "encoding_suffix e =
     (case e of
        [] \<Rightarrow> True
      | c # t \<Rightarrow> c = CHR ''.'' \<and>
                 list_all (\<lambda>c. ascii_alpha c \<or> ascii_digit c \<or> c = CHR ''-'') t)"

definition variant_suffix :: "string \<Rightarrow> bool" where
  "variant_suffix v =
     (case v of
        [] \<Rightarrow> True
      | c # t \<Rightarrow> c = CHR ''@'' \<and> list_all ascii_alpha t)"

section \<open>Rule trees and the filesystem\<close>

text \<open>
  A rule is a node of an XML document (\<open>xml.dom\<close>): its \<open>nodeType\<close>, its
  \<open>nodeName\<close>, its attributes and its \<open>childNodes\<close>. The children of an element
  include the text and comment nodes between its child elements.
\<close>

datatype node_type = ELEMENT_NODE | TEXT_NODE | COMMENT_NODE

datatype xml_node =
  Node (nodeType: node_type) (nodeName: string) (attributes: "(string \<times> string) list")
       (childNodes: "xml_node list")

text \<open>\<open>getAttribute\<close> gives the empty string for an attribute the element does not have.\<close>

definition getAttribute :: "(string \<times> string) list \<Rightarrow> string \<Rightarrow> string" where
  "getAttribute attrs name = (case map_of attrs name of Some v \<Rightarrow> v | None \<Rightarrow> [])"

text \<open>
  What \<open>handle_path\<close> reads of the filesystem: \<open>os.path.isdir\<close> and the paths
  \<open>glob.iglob\<close> lists for a pattern, in the order it lists them.
\<close>

record filesystem =
  isdir :: "string \<Rightarrow> bool"
  iglob :: "string \<Rightarrow> string list"

text \<open>
  A generator is modelled by what consuming it to its end shows: the values it yields,
  in order, and the exception that ends it, if one does (\<open>None\<close>: it is exhausted).
\<close>

type_synonym 'a generator = "'a list \<times> error option"

section \<open>Locales.handle_path\<close>

text \<open>
  The loop over \<open>glob.iglob(path + userfilter)\<close>: a name that
  \<open>locale_to_language\<close> rejects (\<open>ValueError\<close>) is skipped.
\<close>

fun glob_loop :: "nat \<Rightarrow> nat option \<Rightarrow> string list \<Rightarrow> (string \<times> string) list" where
  "glob_loop prefixlen postfixlen [] = []"
| "glob_loop prefixlen postfixlen (subpath # rest) =
     (let filename = path_tail subpath
      in case locale_to_language (slice_from_to_end filename prefixlen postfixlen) of
           Inl e \<Rightarrow> glob_loop prefixlen postfixlen rest
         | Inr locale \<Rightarrow> (locale, subpath) # glob_loop prefixlen postfixlen rest)"

text \<open>
  \<open>(prefixlen, postfixlen) = [...]\<close>: a list of two elements is unpacked, any other
  raises.
\<close>

fun unpack2 :: "nat list \<Rightarrow> error + nat \<times> nat" where
  "unpack2 [a, b] = Inr (a, b)"
| "unpack2 xs = Inl UnpackError"

text \<open>
  \<open>handle_path path xmldata\<close>; \<open>handle_children\<close> is its last loop, over
  \<open>xmldata.childNodes\<close>.
\<close>

fun handle_path :: "filesystem \<Rightarrow> string \<Rightarrow> xml_node \<Rightarrow> (string \<times> string) generator"
  and handle_children :: "filesystem \<Rightarrow> string \<Rightarrow> xml_node list \<Rightarrow> (string \<times> string) generator"
where
  "handle_path fs path (Node ty name attrs children) =
     (if ELEMENT_NODE \<noteq> ty then ([], None)
      else if ''path'' \<noteq> name then ([], Some (InvalidNode name))
      else let location = getAttribute attrs ''location'' in
        if [] = location then ([], Some MissingLocationAttribute)
        else let path1 = path @ location;
                 path2 = (if \<not> endswith path1 ''/'' then path1 @ ''/'' else path1) in
          if \<not> isdir fs path2 then ([], None)
          else let userfilter0 = getAttribute attrs ''filter'';
                   userfilter = (if userfilter0 = [] \<and> children = [] then ''*'' else userfilter0) in
            if userfilter \<noteq> [] then
              (if 1 \<noteq> count_char userfilter (CHR ''*'')
               then ([], Some (MalformedFilterPattern userfilter))
               else (case unpack2 (map length (split_char userfilter (CHR ''*''))) of
                       Inl e \<Rightarrow> ([], Some e)
                     | Inr (prefixlen, postfixlen0) \<Rightarrow>
                         (let postfixlen = (if 0 \<noteq> postfixlen0 then Some postfixlen0 else None);
                              found = glob_loop prefixlen postfixlen (iglob fs (path2 @ userfilter))
                          in case handle_children fs path2 children of
                               (pairs, stop) \<Rightarrow> (found @ pairs, stop))))
            else handle_children fs path2 children)"
| "handle_children fs path [] = ([], None)"
| "handle_children fs path (child # rest) =
     (case handle_path fs path child of
        (pairs, Some e) \<Rightarrow> (pairs, Some e)
      | (pairs, None) \<Rightarrow>
          (case handle_children fs path rest of
             (later, stop) \<Rightarrow> (pairs @ later, stop)))"

text \<open>
  The base directory \<open>handle_path\<close> resolves for a node: the prefix and the node's
  location, with a slash at the end.
\<close>

definition resolved_directory :: "string \<Rightarrow> string \<Rightarrow> string" where
  "resolved_directory path location =
     (if \<not> endswith (path @ location) ''/'' then path @ location @ ''/''
      else path @ location)"

text \<open>
  The pairs that the rule trees yield, tree after tree from the empty prefix, up to the
  first exception.
\<close>

definition discovered :: "filesystem \<Rightarrow> xml_node list \<Rightarrow> (string \<times> string) generator" where
  "discovered fs nodes = handle_children fs [] nodes"

section \<open>The place of a node in a rule tree\<close>

text \<open>
  The place of a node below the root of a rule tree is the list of its ancestors, the
  root first: of each ancestor its attributes, and its children before and after the
  child on the way to the node. \<open>plug\<close> is the tree with the node at that place and
  \<open>descend\<close> the prefix \<open>handle_path\<close> is called with there.
\<close>

datatype frame =
  Frame (frame_attrs: "(string \<times> string) list") (frame_before: "xml_node list")
        (frame_after: "xml_node list")

fun plug :: "frame list \<Rightarrow> xml_node \<Rightarrow> xml_node" where
  "plug [] node = node"
| "plug (Frame attrs before after # inner) node =
     Node ELEMENT_NODE ''path'' attrs (before @ plug inner node # after)"

fun descend :: "string \<Rightarrow> frame list \<Rightarrow> string" where
  "descend path [] = path"
| "descend path (Frame attrs before after # inner) =
     descend (resolved_directory path (getAttribute attrs ''location'')) inner"

text \<open>
  The evaluation from the root comes to the place: every ancestor has a location, its
  base directory exists, its filter is absent or has one wildcard marker, and its
  children before the way to the node raise nothing.
\<close>

fun reaches :: "filesystem \<Rightarrow> string \<Rightarrow> frame list \<Rightarrow> bool" where
  "reaches fs path [] = True"
| "reaches fs path (Frame attrs before after # inner) =
     (getAttribute attrs ''location'' \<noteq> [] \<and>
      isdir fs (resolved_directory path (getAttribute attrs ''location'')) \<and>
      (getAttribute attrs ''filter'' = [] \<or>
       count_char (getAttribute attrs ''filter'') (CHR ''*'') = 1) \<and>
      snd (handle_children fs (resolved_directory path (getAttribute attrs ''location'')) before)
        = None \<and>
      reaches fs (resolved_directory path (getAttribute attrs ''location'')) inner)"

section \<open>Locales.localization_paths\<close>

text \<open>
  The class \<open>Locales\<close>: the keys of its table \<open>native_locale_names\<close> (the native
  names themselves play no part in \<open>localization_paths\<close>) and the rule trees
  \<open>add_xml\<close> has appended to \<open>_paths\<close>.
\<close>

record Locales =
  native_locale_names :: "string list"
  paths :: "xml_node list"

text \<open>The keys of the table as the source file lists them.\<close>

definition native_locale_names_keys :: "string list" where
  "native_locale_names_keys =
     [''ar'', ''ast'', ''be'', ''bg'', ''bn'', ''bs'', ''ca'', ''cs'', ''da'', ''de'', ''el'',
      ''en'', ''en_AU'', ''en_GB'', ''eo'', ''es'', ''et'', ''fa'', ''fi'', ''fo'', ''fr'',
      ''gl'', ''he'', ''hi'', ''hr'', ''hu'', ''hy'', ''ia'', ''id'', ''it'', ''iw'', ''ku'',
      ''ky'', ''ja'', ''jv'', ''lt'', ''ko'', ''mr'', ''ms'', ''my'', ''nb'', ''nds'', ''nl'',
      ''no'', ''pl'', ''pt'', ''ro'', ''ru'', ''sk'', ''sl'', ''sr'', ''sv'', ''tr'', ''ug'',
      ''uk'', ''vi'', ''zh'']"

definition purgeable_locales :: "string list \<Rightarrow> string list \<Rightarrow> string list" where
  "purgeable_locales keys locales_to_keep =
     filter (\<lambda>locale. locale \<notin> set locales_to_keep) keys"

fun localization_loop :: "filesystem \<Rightarrow> string list \<Rightarrow> xml_node list \<Rightarrow> string generator" where
  "localization_loop fs purgeable [] = ([], None)"
| "localization_loop fs purgeable (xml_node # rest) =
     (case handle_path fs [] xml_node of
        (pairs, stop) \<Rightarrow>
          (let yielded = map snd (filter (\<lambda>(locale, path). locale \<in> set purgeable) pairs)
           in case stop of
                Some e \<Rightarrow> (yielded, Some e)
              | None \<Rightarrow>
                  (case localization_loop fs purgeable rest of
                     (later, stop') \<Rightarrow> (yielded @ later, stop'))))"

definition localization_paths :: "Locales \<Rightarrow> filesystem \<Rightarrow> string list \<Rightarrow> string generator" where
  "localization_paths self fs locales_to_keep =
     (if locales_to_keep = [] then ([], Some EmptyKeepSet)
      else localization_loop fs
             (purgeable_locales (native_locale_names self) locales_to_keep) (paths self))"

section \<open>Child processes\<close>

text \<open>
  A child process started with \<open>subprocess.Popen\<close> and its output piped is seen by
  the read loops through two calls: \<open>process.stdout.readline()\<close>, which returns the
  next line with its newline, or the empty string at the end of the stream, and
  \<open>process.poll()\<close>, which returns \<open>None\<close> while the process runs and its exit
  status once it has ended. A process is the list of its reads, in order: what
  \<open>readline\<close> returns, and what \<open>poll\<close> returns if it is called after that read.
  When the list is used up and the loop has not ended, the loop has not returned
  within the reads observed (a process that hangs): the result is \<open>None\<close>.
\<close>

record proc_read =
  rd_line :: string
  rd_poll :: "int option"

text \<open>
  For \<open>yum_clean\<close> a read also carries the size that
  \<open>FileUtilities.getsizedir('/var/cache/yum')\<close> returns if it is called after that
  read.
\<close>

record yum_read = proc_read +
  rd_size :: int

text \<open>
  The read on which a loop ends: an empty line (a blank line, or the end of the
  stream) when the process has ended.
\<close>

definition last_read :: "'a proc_read_scheme \<Rightarrow> bool" where
  "last_read r = (remove_newlines (rd_line r) = [] \<and> rd_poll r \<noteq> None)"

section \<open>The size parser\<close>

text \<open>
  Modelled from the spec: the value of a string of decimal digits, for the size parser
  \<open>FileUtilities.human_to_bytes\<close>, which is not among the sources.
\<close>

definition digit_value :: "char \<Rightarrow> int" where
  "digit_value c = int (length (takeWhile (\<lambda>d. d \<noteq> c) ''0123456789''))"

definition decimal :: "string \<Rightarrow> int" where
  "decimal ds = foldl (\<lambda>n c. 10 * n + digit_value c) 0 ds"

text \<open>
  Modelled from the spec: the units of \<open>FileUtilities.human_to_bytes\<close>, which is not
  among the sources. Section 6 of the spec names the upper-cased unit tokens \<open>KB\<close>,
  \<open>MB\<close>, \<open>GB\<close>, ...; section 8 fixes the decimal convention.
\<close>

definition unit_multiplier :: "string \<Rightarrow> int option" where
  "unit_multiplier u =
     map_of [(''B'', 1), (''KB'', 1000), (''MB'', 1000 * 1000), (''GB'', 1000 * 1000 * 1000),
             (''TB'', 1000 * 1000 * 1000 * 1000)] u"

text \<open>
  Modelled from the spec: \<open>FileUtilities.human_to_bytes\<close>, which is not among the
  sources. The spec gives its interface (section 6: a size token to an integer number
  of bytes, called with upper-cased unit tokens) and its convention (section 8:
  decimal, \<open>1165kB\<close> is \<open>1165 * 1000\<close> bytes; section 4.4 has the token
  \<open>74.7MB\<close>). A token is digits, optionally a point and more digits, and a unit;
  the value is cut to a whole number of bytes; any other token is rejected.
\<close>

definition human_to_bytes :: "string \<Rightarrow> error + int" where
  "human_to_bytes token =
     (let whole = takeWhile ascii_digit token;
          rest = dropWhile ascii_digit token;
          fraction = (if startswith rest ''.'' then takeWhile ascii_digit (tl rest) else []);
          unit = (if startswith rest ''.'' then dropWhile ascii_digit (tl rest) else rest)
      in case unit_multiplier unit of
           None \<Rightarrow> Inl (InvalidSize token)
         | Some m \<Rightarrow>
             if whole = [] \<and> fraction = [] then Inl (InvalidSize token)
             else Inr (decimal (whole @ fraction) * m div 10 ^ length fraction))"

section \<open>apt_autoclean\<close>

text \<open>
  The pattern of \<open>apt_autoclean\<close>, after its leading \<open>^\<close>:
  \<^verbatim>\<open>Del .*\[([0-9.]+[a-zA-Z]{2})\]\<close>
\<close>

definition del_pattern :: regex where
  "del_pattern =
     Seq (Lit ''Del '')
    (Seq (Class (\<lambda>c. c \<noteq> newline) 0 None)
    (Seq (Lit ''['')
    (Seq (Group (Seq (Class (\<lambda>c. ascii_digit c \<or> c = CHR ''.'') 1 None)
                     (Class ascii_alpha 2 (Some 2))))
         (Lit '']''))))"

text \<open>
  One pass of the loop body up to the update of \<open>total_bytes\<close>: the new total, or
  the exception of the size parser. The parser \<open>FileUtilities.human_to_bytes\<close> is a
  parameter.
\<close>

definition add_pkg_bytes :: "(string \<Rightarrow> error + int) \<Rightarrow> int \<Rightarrow> string \<Rightarrow> error + int" where
  "add_pkg_bytes to_bytes total_bytes line =
     (case re_match del_pattern line of
        None \<Rightarrow> Inr total_bytes
      | Some caps \<Rightarrow>
          (let pkg_bytes_str = group_text caps 0
           in case to_bytes (upper pkg_bytes_str) of
                Inl e \<Rightarrow> Inl e
              | Inr pkg_bytes \<Rightarrow> Inr (total_bytes + pkg_bytes)))"

fun apt_autoclean_loop ::
  "(string \<Rightarrow> error + int) \<Rightarrow> int \<Rightarrow> proc_read list \<Rightarrow> (error + int) option" where
  "apt_autoclean_loop to_bytes total_bytes [] = None"
| "apt_autoclean_loop to_bytes total_bytes (r # rest) =
     (let line = remove_newlines (rd_line r)
      in if startswith line ''E: '' then Some (Inl (FatalCommandOutput line))
         else (case add_pkg_bytes to_bytes total_bytes line of
                 Inl e \<Rightarrow> Some (Inl e)
               | Inr total_bytes' \<Rightarrow>
                   if [] = line \<and> rd_poll r \<noteq> None then Some (Inr total_bytes')
                   else apt_autoclean_loop to_bytes total_bytes' rest))"

text \<open>
  \<open>apt_autoclean\<close>, given the parser, \<open>FileUtilities.exe_exists\<close> and the process
  that \<open>Popen(['apt-get', 'autoclean'])\<close> starts.
\<close>

definition apt_autoclean ::
  "(string \<Rightarrow> error + int) \<Rightarrow> (string \<Rightarrow> bool) \<Rightarrow> proc_read list \<Rightarrow> (error + int) option" where
  "apt_autoclean to_bytes exe_exists process =
     (if \<not> exe_exists ''apt-get'' then Some (Inl (ExecutableNotFound ''apt-get''))
      else apt_autoclean_loop to_bytes 0 process)"

text \<open>The bytes a line adds to the total when the parser accepts its size token.\<close>

definition line_bytes :: "(string \<Rightarrow> error + int) \<Rightarrow> string \<Rightarrow> int" where
  "line_bytes to_bytes line =
     (case re_match del_pattern line of
        None \<Rightarrow> 0
      | Some caps \<Rightarrow> (case to_bytes (upper (group_text caps 0)) of Inl e \<Rightarrow> 0 | Inr b \<Rightarrow> b))"

text \<open>
  A read that the loop of \<open>apt_autoclean\<close> passes: not its last, not a line that
  starts with \<open>E: \<close>, and no size token that the parser rejects.
\<close>

definition apt_passes :: "(string \<Rightarrow> error + int) \<Rightarrow> proc_read \<Rightarrow> bool" where
  "apt_passes to_bytes r =
     (\<not> last_read r \<and> \<not> startswith (remove_newlines (rd_line r)) ''E: '' \<and>
      \<not> isl (add_pkg_bytes to_bytes 0 (remove_newlines (rd_line r))))"

text \<open>
  The reads of the loop of \<open>apt_autoclean\<close> before its last: those before the first
  empty line read once the process has ended.
\<close>

definition lines_read :: "proc_read list \<Rightarrow> proc_read list" where
  "lines_read reads = takeWhile (\<lambda>r. \<not> last_read r) reads"

section \<open>yum_clean\<close>

text \<open>
  The calls \<open>yum_clean\<close> makes to the system, in order (the debugging \<open>print\<close>s
  are left out).
\<close>

datatype call =
    PathExists string
  | ExeExists string
  | GetSizeDir string
  | Popen "string list"
  | Readline
  | Poll

text \<open>
  The read loop. It ends with an exception, or with the values of \<open>old_size\<close>,
  \<open>non_blank_line\<close> and \<open>p.returncode\<close>, and the size of the directory then.
\<close>

definition fatal_line :: "string \<Rightarrow> bool" where
  "fatal_line line =
     (contains line ''You need to be root'' \<or> contains line ''Cannot remove rpmdb file'')"

definition lock_line :: "string \<Rightarrow> bool" where
  "lock_line line = contains line ''Another app is currently holding''"

text \<open>The calls of one pass of the loop body on the line read.\<close>

definition yum_calls :: "string \<Rightarrow> call list" where
  "yum_calls line =
     Readline # (if lock_line line then [GetSizeDir ''/var/cache/yum''] else []) @
     (if [] = line then [Poll] else [])"

fun yum_loop ::
  "int \<Rightarrow> string \<Rightarrow> yum_read list \<Rightarrow> call list \<times> (error + int \<times> string \<times> int \<times> int) option"
where
  "yum_loop old_size non_blank_line [] = ([], None)"
| "yum_loop old_size non_blank_line (r # rest) =
     (let line = remove_newlines (rd_line r);
          non_blank_line' = (if length line > 2 then line else non_blank_line)
      in if contains line ''You need to be root''
         then ([Readline], Some (Inl (FatalCommandOutput line)))
         else if contains line ''Cannot remove rpmdb file''
         then ([Readline], Some (Inl (FatalCommandOutput line)))
         else let old_size' = (if contains line ''Another app is currently holding''
                               then rd_size r else old_size)
              in case (if [] = line then rd_poll r else None) of
                   Some returncode \<Rightarrow>
                     (yum_calls line,
                      Some (Inr (old_size', non_blank_line', returncode, rd_size r)))
                 | None \<Rightarrow>
                     apfst ((@) (yum_calls line)) (yum_loop old_size' non_blank_line' rest))"

text \<open>
  \<open>yum_clean\<close>, given \<open>os.path.exists\<close>, \<open>FileUtilities.exe_exists\<close>, the size of
  \<open>/var/cache/yum\<close> before the command and the process that
  \<open>Popen(['yum', '--enablerepo=*', 'clean', 'all'])\<close> starts. The result is the calls
  made and what \<open>yum_clean\<close> returns or raises.
\<close>

definition yum_clean ::
  "(string \<Rightarrow> bool) \<Rightarrow> (string \<Rightarrow> bool) \<Rightarrow> int \<Rightarrow> yum_read list \<Rightarrow>
   call list \<times> (error + int) option" where
  "yum_clean path_exists exe_exists size_before process =
     (if path_exists ''/var/run/yum.pid''
      then ([PathExists ''/var/run/yum.pid''], Some (Inl (CurrentlyRunning ''Yum'')))
      else if \<not> exe_exists ''yum''
      then ([PathExists ''/var/run/yum.pid'', ExeExists ''yum''],
            Some (Inl (ExecutableNotFound ''yum'')))
      else
        (let started = [PathExists ''/var/run/yum.pid'', ExeExists ''yum'',
                        GetSizeDir ''/var/cache/yum'',
                        Popen [''yum'', ''--enablerepo=*'', ''clean'', ''all'']]
         in case yum_loop size_before [] process of
              (calls, None) \<Rightarrow> (started @ calls, None)
            | (calls, Some (Inl e)) \<Rightarrow> (started @ calls, Some (Inl e))
            | (calls, Some (Inr (old_size, non_blank_line, returncode, new_size))) \<Rightarrow>
                if returncode > 0
                then (started @ calls, Some (Inl (CommandFailed non_blank_line)))
                else (started @ calls @ [GetSizeDir ''/var/cache/yum''],
                      Some (Inr (old_size - new_size)))))"

text \<open>
  A read that the loop of \<open>yum_clean\<close> passes: not its last, and not a line with one
  of the two fatal texts.
\<close>

definition yum_passes :: "yum_read \<Rightarrow> bool" where
  "yum_passes r = (\<not> last_read r \<and> \<not> fatal_line (remove_newlines (rd_line r)))"

text \<open>
  The baseline after the reads \<open>rs\<close>: the size of the directory at the last of them
  that has the lock text, or the size before the command when none has.
\<close>

definition baseline :: "int \<Rightarrow> yum_read list \<Rightarrow> int" where
  "baseline size_before rs =
     (case filter (\<lambda>r. lock_line (remove_newlines (rd_line r))) rs of
        [] \<Rightarrow> size_before
      | x # xs \<Rightarrow> rd_size (last (x # xs)))"

text \<open>
  The value of \<open>non_blank_line\<close> after the reads \<open>rs\<close>: the last line of more than
  two characters among them, or its value before them when none is that long.
\<close>

definition last_long_line :: "string \<Rightarrow> yum_read list \<Rightarrow> string" where
  "last_long_line initial rs =
     (case filter (\<lambda>l. length l > 2) (map (\<lambda>r. remove_newlines (rd_line r)) rs) of
        [] \<Rightarrow> initial
      | x # xs \<Rightarrow> last (x # xs))"

section \<open>Example inputs\<close>

text \<open>
  A filesystem with one locale directory and four entries in it, one of them not a
  locale; a filesystem with no directory at all; and the class with the source's
  table and one rule for that directory.
\<close>

definition example_fs :: filesystem where
  "example_fs =
     \<lparr>isdir = (\<lambda>p. p = ''/usr/share/locale/''),
      iglob = (\<lambda>p. if p = ''/usr/share/locale/*''
                    then [''/usr/share/locale/en_US'', ''/usr/share/locale/de'',
                          ''/usr/share/locale/README'', ''/usr/share/locale/fr'']
                    else [])\<rparr>"

definition empty_fs :: filesystem where
  "empty_fs = \<lparr>isdir = (\<lambda>p. False), iglob = (\<lambda>p. [])\<rparr>"

definition example_locales :: Locales where
  "example_locales =
     \<lparr>native_locale_names = native_locale_names_keys,
      paths = [Node ELEMENT_NODE ''path'' [(''location'', ''/usr/share/locale'')] []]\<rparr>"

text \<open>
  Reads of a process that is still running when it writes the line \<open>text\<close>, and the
  read at the end of the stream of a process that has ended with \<open>returncode\<close>.
\<close>

definition read_line :: "string \<Rightarrow> proc_read" where
  "read_line text = \<lparr>rd_line = text @ [newline], rd_poll = None\<rparr>"

definition read_end :: "int \<Rightarrow> proc_read" where
  "read_end returncode = \<lparr>rd_line = [], rd_poll = Some returncode\<rparr>"

definition yum_line :: "string \<Rightarrow> int \<Rightarrow> yum_read" where
  "yum_line text bytes = \<lparr>rd_line = text @ [newline], rd_poll = None, rd_size = bytes\<rparr>"

definition yum_end :: "int \<Rightarrow> int \<Rightarrow> yum_read" where
  "yum_end returncode bytes = \<lparr>rd_line = [], rd_poll = Some returncode, rd_size = bytes\<rparr>"

text \<open>
  A line read when the process has already ended, and a filesystem in which every path
  is a directory and no pattern matches.
\<close>

definition read_line_ended :: "string \<Rightarrow> int \<Rightarrow> proc_read" where
  "read_line_ended text returncode = \<lparr>rd_line = text @ [newline], rd_poll = Some returncode\<rparr>"

definition all_dirs_fs :: filesystem where
  "all_dirs_fs = \<lparr>isdir = (\<lambda>p. True), iglob = (\<lambda>p. [])\<rparr>"

text \<open>
  A rule tree in which a node with the malformed filter \<open>*_*\<close> stands below the root,
  after a text node and a well-formed rule and before another rule.
\<close>

definition nested_rule :: xml_node where
  "nested_rule =
     Node ELEMENT_NODE ''path'' [(''location'', ''/usr/share'')]
       [Node TEXT_NODE ''#text'' [] [],
        Node ELEMENT_NODE ''path'' [(''location'', ''omf'')] [],
        Node ELEMENT_NODE ''path'' [(''location'', ''locale''), (''filter'', ''*_*'')] [],
        Node ELEMENT_NODE ''path'' [(''location'', ''doc'')] []]"

section \<open>Facts about the matcher\<close>

lemmas char_classes = ascii_lower_def ascii_upper_def ascii_digit_def ascii_alpha_def

lemma takeWhile_stop:
  "list_all p xs \<Longrightarrow> ys = [] \<or> \<not> p (hd ys) \<Longrightarrow> takeWhile p (xs @ ys) = xs"
  by (induction xs) (auto simp: neq_Nil_conv, cases ys, auto)

lemma first_Lit: "prefix t s \<Longrightarrow> first_match (Lit t) s [] (drop (length t) s)"
  by (simp add: first_match_def)

lemma first_Class:
  assumes "takeWhile p s = xs" and "lo \<le> length xs"
    and "case hi of None \<Rightarrow> True | Some h \<Rightarrow> length xs \<le> h"
  shows "first_match (Class p lo hi) s [] (drop (length xs) s)"
proof -
  have m: "(case hi of None \<Rightarrow> length xs | Some h \<Rightarrow> min h (length xs)) = length xs"
    using assms(3) by (cases hi) auto
  have "rev [lo..<Suc (length xs)] = length xs # rev [lo..<length xs]"
    using assms(2) by simp
  then show ?thesis
    using assms(1,2) m by (simp add: first_match_def Let_def)
qed

lemma first_Seq:
  "first_match a s c1 r1 \<Longrightarrow> first_match b r1 c2 r2 \<Longrightarrow> first_match (Seq a b) s (c1 @ c2) r2"
  by (auto simp: first_match_def)

lemma first_Opt: "first_match a s c r \<Longrightarrow> first_match (Opt a) s c r"
  by (auto simp: first_match_def)

lemma first_Opt_skip:
  "rmatch a s = [] \<Longrightarrow> first_match (Opt a) s (replicate (ngroups a) None) s"
  by (simp add: first_match_def)

lemma first_Group:
  "first_match a s c r \<Longrightarrow>
   first_match (Group a) s (Some (take (length s - length r) s) # c) r"
  by (auto simp: first_match_def)

lemma first_Eos: "first_match Eos [] [] []"
  by (simp add: first_match_def)

section \<open>locale_to_language on well-shaped locales\<close>

lemma variant_hd: "variant_suffix v \<Longrightarrow> v = [] \<or> hd v = CHR ''@''"
  by (cases v) (simp_all add: variant_suffix_def)

lemma encoding_hd: "encoding_suffix e \<Longrightarrow> e = [] \<or> hd e = CHR ''.''"
  by (cases e) (simp_all add: encoding_suffix_def)

lemma region_hd: "region_suffix r \<Longrightarrow> r = [] \<or> hd r = CHR ''_'' \<or> hd r = CHR ''-''"
  by (cases r) (auto simp add: region_suffix_def)

lemma suffixes_hd:
  assumes "region_suffix r" and "encoding_suffix e" and "variant_suffix v"
  shows "r @ e @ v = [] \<or> \<not> ascii_lower (hd (r @ e @ v))"
  using region_hd [OF assms(1)] encoding_hd [OF assms(2)] variant_hd [OF assms(3)]
  by (cases r; cases e) (auto simp: char_classes)

text \<open>The core: the greedy \<open>[a-z]{2,3}\<close> takes exactly the core.\<close>

lemma core_stage:
  assumes "language_core core" and "rest = [] \<or> \<not> ascii_lower (hd rest)"
  shows "first_match (Group (Class ascii_lower 2 (Some 3))) (core @ rest) [Some core] rest"
proof -
  have tw: "takeWhile ascii_lower (core @ rest) = core"
    using assms by (simp add: takeWhile_stop language_core_def)
  have "first_match (Class ascii_lower 2 (Some 3)) (core @ rest) []
          (drop (length core) (core @ rest))"
    using assms(1) by (intro first_Class [OF tw]) (auto simp: language_core_def)
  then have "first_match (Class ascii_lower 2 (Some 3)) (core @ rest) [] rest" by simp
  from first_Group [OF this] show ?thesis by simp
qed

text \<open>The optional parts, from the last to the first.\<close>

lemma variant_stage:
  assumes "variant_suffix v"
  shows "\<exists>c. first_match
           (Seq (Opt (Group (Seq (Lit ''@'') (Class ascii_alpha 0 None)))) Eos) v c []"
proof (cases v)
  case Nil
  have "first_match (Opt (Group (Seq (Lit ''@'') (Class ascii_alpha 0 None)))) [] [None] []"
    using first_Opt_skip [of "Group (Seq (Lit ''@'') (Class ascii_alpha 0 None))" "[]"] by simp
  from first_Seq [OF this first_Eos] show ?thesis using Nil by blast
next
  case (Cons x t)
  then have x: "x = CHR ''@''" and t: "list_all ascii_alpha t"
    using assms by (simp_all add: variant_suffix_def)
  have tw: "takeWhile ascii_alpha t = t" using t by (simp add: list_all_iff)
  have a: "first_match (Lit ''@'') v [] t" using first_Lit [of "''@''" v] Cons x by simp
  have "first_match (Class ascii_alpha 0 None) t [] (drop (length t) t)"
    by (rule first_Class [OF tw]) simp_all
  then have b: "first_match (Class ascii_alpha 0 None) t [] []" by simp
  from first_Opt [OF first_Group [OF first_Seq [OF a b]]]
  have "\<exists>c. first_match (Opt (Group (Seq (Lit ''@'') (Class ascii_alpha 0 None)))) v c []"
    by blast
  then show ?thesis using first_Seq [OF _ first_Eos] by blast
qed

lemma encoding_stage:
  assumes "encoding_suffix e" and "variant_suffix v"
  shows "\<exists>c. first_match
           (Opt (Group (Seq (Lit ''.'')
              (Class (\<lambda>c. ascii_alpha c \<or> ascii_digit c \<or> c = CHR ''-'') 0 None))))
           (e @ v) c v"
proof (cases e)
  case Nil
  have "\<not> prefix ''.'' v" using variant_hd [OF assms(2)] by (cases v) auto
  then have "rmatch (Group (Seq (Lit ''.'')
              (Class (\<lambda>c. ascii_alpha c \<or> ascii_digit c \<or> c = CHR ''-'') 0 None))) v = []"
    by simp
  from first_Opt_skip [OF this] show ?thesis using Nil by auto
next
  case (Cons x t)
  let ?p = "\<lambda>c. ascii_alpha c \<or> ascii_digit c \<or> c = CHR ''-''"
  from Cons have x: "x = CHR ''.''" and t: "list_all ?p t"
    using assms(1) by (simp_all add: encoding_suffix_def)
  have "v = [] \<or> \<not> ?p (hd v)" using variant_hd [OF assms(2)] by (auto simp: char_classes)
  then have tw: "takeWhile ?p (t @ v) = t" using t by (simp add: takeWhile_stop)
  have a: "first_match (Lit ''.'') (e @ v) [] (t @ v)"
    using first_Lit [of "''.''" "e @ v"] Cons x by simp
  have "first_match (Class ?p 0 None) (t @ v) [] (drop (length t) (t @ v))"
    by (rule first_Class [OF tw]) simp_all
  then have b: "first_match (Class ?p 0 None) (t @ v) [] v" by simp
  from first_Opt [OF first_Group [OF first_Seq [OF a b]]] show ?thesis by blast
qed

lemma region_stage:
  assumes "region_suffix r" and "encoding_suffix e" and "variant_suffix v"
  shows "\<exists>c. first_match
           (Opt (Group (Seq (Class (\<lambda>c. c = CHR ''_'' \<or> c = CHR ''-'') 1 (Some 1))
                            (Class ascii_alpha 2 (Some 4))))) (r @ e @ v) c (e @ v)"
proof (cases r)
  case Nil
  let ?p = "\<lambda>c. c = CHR ''_'' \<or> c = CHR ''-''"
  have "e @ v = [] \<or> \<not> ?p (hd (e @ v))"
    using encoding_hd [OF assms(2)] variant_hd [OF assms(3)] by (cases e) auto
  then have "takeWhile ?p (e @ v) = []" by (cases "e @ v") auto
  then have "rmatch (Class ?p 1 (Some 1)) (e @ v) = []" by simp
  then have "rmatch (Group (Seq (Class ?p 1 (Some 1)) (Class ascii_alpha 2 (Some 4)))) (e @ v) = []"
    by simp
  from first_Opt_skip [OF this] show ?thesis using Nil by auto
next
  case (Cons x t)
  let ?p = "\<lambda>c. c = CHR ''_'' \<or> c = CHR ''-''"
  from Cons have x: "?p x" and t: "list_all ascii_alpha t"
    and len: "2 \<le> length t" "length t \<le> 4"
    using assms(1) by (simp_all add: region_suffix_def)
  have nx: "\<not> ?p (hd t)" using t len by (cases t) (auto simp: char_classes)
  have "t \<noteq> []" using len by auto
  then have tw1: "takeWhile ?p (r @ e @ v) = [x]" using Cons x nx by (cases t) auto
  have "first_match (Class ?p 1 (Some 1)) (r @ e @ v) [] (drop (length [x]) (r @ e @ v))"
    by (rule first_Class [OF tw1]) simp_all
  then have a: "first_match (Class ?p 1 (Some 1)) (r @ e @ v) [] (t @ e @ v)"
    using Cons by simp
  have "e @ v = [] \<or> \<not> ascii_alpha (hd (e @ v))"
    using encoding_hd [OF assms(2)] variant_hd [OF assms(3)]
    by (cases e) (auto simp: char_classes)
  then have tw2: "takeWhile ascii_alpha (t @ e @ v) = t" using t by (simp add: takeWhile_stop)
  have "first_match (Class ascii_alpha 2 (Some 4)) (t @ e @ v) []
          (drop (length t) (t @ e @ v))"
    using len by (intro first_Class [OF tw2]) simp_all
  then have b: "first_match (Class ascii_alpha 2 (Some 4)) (t @ e @ v) [] (e @ v)" by simp
  from first_Opt [OF first_Group [OF first_Seq [OF a b]]] show ?thesis by blast
qed

lemma locale_pattern_first:
  assumes "language_core core" and "region_suffix r" and "encoding_suffix e"
    and "variant_suffix v"
  shows "\<exists>c. first_match locale_pattern (core @ r @ e @ v) (Some core # c) []"
proof -
  from variant_stage [OF assms(4)] obtain c4 where
    s4: "first_match (Seq (Opt (Group (Seq (Lit ''@'') (Class ascii_alpha 0 None)))) Eos) v c4 []"
    by blast
  from encoding_stage [OF assms(3,4)] obtain c3 where
    s3: "first_match (Opt (Group (Seq (Lit ''.'')
              (Class (\<lambda>c. ascii_alpha c \<or> ascii_digit c \<or> c = CHR ''-'') 0 None))))
           (e @ v) c3 v"
    by blast
  from region_stage [OF assms(2,3,4)] obtain c2 where
    s2: "first_match (Opt (Group (Seq (Class (\<lambda>c. c = CHR ''_'' \<or> c = CHR ''-'') 1 (Some 1))
                            (Class ascii_alpha 2 (Some 4))))) (r @ e @ v) c2 (e @ v)"
    by blast
  have s1: "first_match (Group (Class ascii_lower 2 (Some 3))) (core @ r @ e @ v)
              [Some core] (r @ e @ v)"
    by (rule core_stage [OF assms(1) suffixes_hd [OF assms(2,3,4)]])
  from first_Seq [OF s1 first_Seq [OF s2 first_Seq [OF s3 s4]]]
  show ?thesis unfolding locale_pattern_def by auto
qed

lemma not_klingon:
  assumes "language_core core" and "region_suffix r" and "encoding_suffix e"
    and "variant_suffix v"
  shows "core @ r @ e @ v \<noteq> ''klingon''"
proof
  assume eq: "core @ r @ e @ v = ''klingon''"
  have "takeWhile ascii_lower (core @ r @ e @ v) = core"
    using assms(1) suffixes_hd [OF assms(2,3,4)] by (simp add: takeWhile_stop language_core_def)
  moreover have "takeWhile ascii_lower ''klingon'' = ''klingon''"
    by (simp add: ascii_lower_def)
  ultimately have "core = ''klingon''" using eq by simp
  then show False using assms(1) by (simp add: language_core_def)
qed

text \<open>
  C5. A locale string of the shape the pattern describes (a core of two or three
  lower-case letters, then an optional region or script part, an optional encoding
  part and an optional variant part) is normalised to its core by
  \<open>locale_to_language\<close>, whatever the optional parts are.
\<close>

theorem locale_to_language_core:
  assumes "language_core core" and "region_suffix r" and "encoding_suffix e"
    and "variant_suffix v"
  shows "locale_to_language (core @ r @ e @ v) = Inr core"
proof -
  from locale_pattern_first [OF assms] obtain c others where
    "rmatch locale_pattern (core @ r @ e @ v) = (Some core # c, []) # others"
    by (auto simp: first_match_def)
  then have "re_match locale_pattern (core @ r @ e @ v) = Some (Some core # c)"
    by (simp add: re_match_def)
  then show ?thesis
    using not_klingon [OF assms] by (auto simp: locale_to_language_def group_text_def)
qed

text \<open>
  The two examples of the claim: \<open>en_US.UTF-8\<close> is normalised to \<open>en\<close> and
  \<open>pt_BR@euro\<close> to \<open>pt\<close>.
\<close>

theorem locale_to_language_core_witness:
  "locale_to_language ''en_US.UTF-8'' = Inr ''en'' \<and>
   locale_to_language ''pt_BR@euro'' = Inr ''pt''"
proof -
  have a: "language_core ''en''" "language_core ''pt''"
    by (simp_all add: language_core_def ascii_lower_def)
  have b: "region_suffix ''_US''" "region_suffix ''_BR''"
    by (simp_all add: region_suffix_def char_classes)
  have c: "encoding_suffix ''.UTF-8''" "encoding_suffix []"
    by (simp_all add: encoding_suffix_def char_classes)
  have d: "variant_suffix []" "variant_suffix ''@euro''"
    by (simp_all add: variant_suffix_def char_classes)
  show ?thesis
    using locale_to_language_core [OF a(1) b(1) c(1) d(1)]
      locale_to_language_core [OF a(2) b(2) c(2) d(2)] by simp
qed

section \<open>The purge planner\<close>

lemma localization_loop_discovered:
  "localization_loop fs purgeable nodes =
     (map snd (filter (\<lambda>(locale, path). locale \<in> set purgeable)
                      (fst (handle_children fs [] nodes))),
      snd (handle_children fs [] nodes))"
proof (induction nodes)
  case Nil
  show ?case by simp
next
  case (Cons node nodes)
  obtain ps st where hp: "handle_path fs [] node = (ps, st)"
    by (cases "handle_path fs [] node")
  obtain qs st2 where hc: "handle_children fs [] nodes = (qs, st2)"
    by (cases "handle_children fs [] nodes")
  show ?case using Cons hp hc by (cases st) simp_all
qed

lemma set_purgeable_locales:
  "set (purgeable_locales keys locales_to_keep) = set keys - set locales_to_keep"
  by (auto simp: purgeable_locales_def)

lemmas locale_eval = locale_to_language_def locale_pattern_def re_match_def group_text_def
  char_classes newline_def

lemma example_discovered:
  "discovered example_fs (paths example_locales) =
     ([(''en'', ''/usr/share/locale/en_US''), (''de'', ''/usr/share/locale/de''),
       (''fr'', ''/usr/share/locale/fr'')], None)"
  by (simp add: discovered_def example_fs_def example_locales_def getAttribute_def endswith_def
      count_char_def path_tail_def slice_from_to_end_def locale_eval Let_def suffix_to_prefix)

text \<open>
  C1. With a keep-set that is not empty, \<open>localization_paths\<close> yields, in the order
  of discovery, the path of exactly those discovered (locale, path) pairs whose locale
  is a key of the catalog and is not in the keep-set, and it ends as the discovery
  ends; when the keep-set has every key of the catalog, no path is yielded, whatever
  is discovered.
\<close>

theorem localization_paths_purgeable:
  assumes "locales_to_keep \<noteq> []"
  shows "localization_paths self fs locales_to_keep =
           (map snd (filter (\<lambda>(locale, path). locale \<in> set (native_locale_names self) \<and>
                                              locale \<notin> set locales_to_keep)
                            (fst (discovered fs (paths self)))),
            snd (discovered fs (paths self))) \<and>
         (set (native_locale_names self) \<subseteq> set locales_to_keep \<longrightarrow>
            fst (localization_paths self fs locales_to_keep) = [])"
proof -
  have eq: "localization_paths self fs locales_to_keep =
           (map snd (filter (\<lambda>(locale, path). locale \<in> set (native_locale_names self) \<and>
                                              locale \<notin> set locales_to_keep)
                            (fst (discovered fs (paths self)))),
            snd (discovered fs (paths self)))"
    using assms
    by (simp add: localization_paths_def localization_loop_discovered set_purgeable_locales
        discovered_def)
  have "fst (localization_paths self fs locales_to_keep) = []"
    if "set (native_locale_names self) \<subseteq> set locales_to_keep"
  proof -
    have "filter (\<lambda>(locale, path). locale \<in> set (native_locale_names self) \<and>
                                   locale \<notin> set locales_to_keep)
                 (fst (discovered fs (paths self))) = []"
      using that by (auto simp: filter_empty_conv)
    then show ?thesis by (simp add: eq)
  qed
  with eq show ?thesis by blast
qed

text \<open>
  Keeping \<open>en\<close> in the example: the German and French directories are yielded, the
  English one and the file that is no locale are not. Keeping every key: nothing is.
\<close>

theorem localization_paths_purgeable_witness:
  "localization_paths example_locales example_fs [''en''] =
     ([''/usr/share/locale/de'', ''/usr/share/locale/fr''], None) \<and>
   fst (localization_paths example_locales example_fs native_locale_names_keys) = []"
proof -
  have k: "native_locale_names example_locales = native_locale_names_keys"
    by (simp add: example_locales_def)
  have a: "[''en''] \<noteq> ([] :: string list)" by simp
  have b: "native_locale_names_keys \<noteq> []" by (simp add: native_locale_names_keys_def)
  have m: "''de'' \<in> set native_locale_names_keys" "''fr'' \<in> set native_locale_names_keys"
    by (simp_all add: native_locale_names_keys_def)
  show ?thesis
    using localization_paths_purgeable [OF a, of example_locales example_fs]
      localization_paths_purgeable [OF b, of example_locales example_fs]
    by (simp add: example_discovered k m)
qed

text \<open>
  C6. With an empty keep-set \<open>localization_paths\<close> yields nothing and raises the
  exception for the empty keep-set, whatever the catalog, the rule trees and the
  filesystem are: it never ends as an empty sequence without an exception.
\<close>

theorem localization_paths_empty_keep:
  "localization_paths self fs [] = ([], Some EmptyKeepSet)"
  by (simp add: localization_paths_def)

theorem localization_paths_empty_keep_witness:
  "localization_paths example_locales example_fs [] = ([], Some EmptyKeepSet)"
  by (rule localization_paths_empty_keep)

section \<open>Rule evaluation\<close>

text \<open>
  C8. A rule node (an element named \<open>path\<close> with a location) whose resolved base
  directory does not exist yields nothing and raises nothing, whatever its filter and
  its descendants are.
\<close>

theorem handle_path_missing_directory:
  assumes "getAttribute attrs ''location'' \<noteq> []"
    and "\<not> isdir fs (resolved_directory path (getAttribute attrs ''location''))"
  shows "handle_path fs path (Node ELEMENT_NODE ''path'' attrs children) = ([], None)"
  using assms by (auto simp: resolved_directory_def Let_def)

theorem handle_path_missing_directory_witness:
  "handle_path example_fs []
     (Node ELEMENT_NODE ''path'' [(''location'', ''/usr/share/omf'')]
        [Node ELEMENT_NODE ''path'' [(''location'', ''*''), (''filter'', ''*-*-*'')] []]) =
   ([], None)"
proof -
  have a: "getAttribute [(''location'', ''/usr/share/omf'')] ''location'' \<noteq> []"
    by (simp add: getAttribute_def)
  have b: "\<not> isdir example_fs
             (resolved_directory []
                (getAttribute [(''location'', ''/usr/share/omf'')] ''location''))"
    by (simp add: getAttribute_def resolved_directory_def example_fs_def endswith_def
        suffix_to_prefix)
  show ?thesis by (rule handle_path_missing_directory [OF a b])
qed

text \<open>An exception of a child ends the loop over the children it stands in.\<close>

lemma length_split_char: "length (split_char s c) = Suc (count_char s c)"
  by (induction s) (auto simp: count_char_def split: list.splits)

lemma unpack2_two: "length xs = 2 \<Longrightarrow> \<exists>a b. unpack2 xs = Inr (a, b)"
  by (cases xs rule: unpack2.cases) auto

lemma handle_children_raises:
  "snd (handle_children fs path before) = None \<Longrightarrow>
   snd (handle_path fs path child) = Some e \<Longrightarrow>
   snd (handle_children fs path (before @ child # after)) = Some e"
proof (induction before)
  case Nil
  then show ?case by (cases "handle_path fs path child") simp
next
  case (Cons b before)
  obtain ps st where hb: "handle_path fs path b = (ps, st)" by (cases "handle_path fs path b")
  obtain qs st2 where hr: "handle_children fs path before = (qs, st2)"
    by (cases "handle_children fs path before")
  from Cons.prems(1) hb hr have st: "st = None" and st2: "st2 = None"
    by (cases st; simp)+
  from Cons.IH Cons.prems(2) hr st2
  have "snd (handle_children fs path (before @ child # after)) = Some e" by simp
  then show ?case using hb st
    by (cases "handle_children fs path (before @ child # after)") simp
qed

text \<open>An exception of the children ends the evaluation of their parent.\<close>

lemma handle_path_raises:
  assumes "getAttribute attrs ''location'' \<noteq> []"
    and "isdir fs (resolved_directory path (getAttribute attrs ''location''))"
    and "getAttribute attrs ''filter'' = [] \<or>
         count_char (getAttribute attrs ''filter'') (CHR ''*'') = 1"
    and "snd (handle_children fs (resolved_directory path (getAttribute attrs ''location''))
                children) = Some e"
  shows "snd (handle_path fs path (Node ELEMENT_NODE ''path'' attrs children)) = Some e"
proof -
  let ?dir = "resolved_directory path (getAttribute attrs ''location'')"
  let ?f = "getAttribute attrs ''filter''"
  obtain ps where hc: "handle_children fs ?dir children = (ps, Some e)"
    using assms(4) by (cases "handle_children fs ?dir children") simp
  have ne: "children \<noteq> []" using hc by auto
  have dir: "(if \<not> endswith (path @ getAttribute attrs ''location'') ''/''
              then (path @ getAttribute attrs ''location'') @ ''/''
              else path @ getAttribute attrs ''location'') = ?dir"
    by (simp add: resolved_directory_def)
  show ?thesis
  proof (cases "?f = []")
    case True
    then show ?thesis using assms(1,2) ne hc dir by (simp add: Let_def)
  next
    case False
    with assms(3) have one: "count_char ?f (CHR ''*'') = 1" by simp
    then have "length (map length (split_char ?f (CHR ''*''))) = 2"
      by (simp add: length_split_char)
    from unpack2_two [OF this] obtain a b where
      u: "unpack2 (map length (split_char ?f (CHR ''*''))) = Inr (a, b)" by blast
    show ?thesis using assms(1,2) False one u hc dir by (simp add: Let_def)
  qed
qed

text \<open>An exception at a place the evaluation comes to ends the evaluation of the tree.\<close>

lemma plug_raises:
  "reaches fs path frames \<Longrightarrow>
   snd (handle_path fs (descend path frames) node) = Some e \<Longrightarrow>
   snd (handle_path fs path (plug frames node)) = Some e"
proof (induction frames arbitrary: path)
  case Nil
  then show ?case by simp
next
  case (Cons fr frames)
  obtain attrs before after where fr: "fr = Frame attrs before after" by (cases fr)
  let ?dir = "resolved_directory path (getAttribute attrs ''location'')"
  from Cons.prems(1) fr have r: "reaches fs ?dir frames"
    and b: "snd (handle_children fs ?dir before) = None"
    and a: "getAttribute attrs ''location'' \<noteq> []" "isdir fs ?dir"
      "getAttribute attrs ''filter'' = [] \<or>
       count_char (getAttribute attrs ''filter'') (CHR ''*'') = 1"
    by simp_all
  from Cons.prems(2) fr have "snd (handle_path fs (descend ?dir frames) node) = Some e"
    by simp
  from Cons.IH [OF r this] have "snd (handle_path fs ?dir (plug frames node)) = Some e" .
  from handle_children_raises [OF b this]
  have "snd (handle_children fs ?dir (before @ plug frames node # after)) = Some e" .
  from handle_path_raises [OF a this] show ?case using fr by simp
qed

text \<open>\<open>localization_paths\<close> ends as the evaluation of the rule trees ends.\<close>

lemma localization_paths_raises:
  assumes "locales_to_keep \<noteq> []"
  shows "snd (localization_paths self fs locales_to_keep) = snd (handle_children fs [] (paths self))"
  using assms by (simp add: localization_paths_def localization_loop_discovered)

text \<open>
  A rule node whose filter \<open>LC_MESSAGES\<close> has no wildcard marker, on a filesystem
  where its base directory does not exist: the evaluation yields nothing and raises
  nothing. And a rule node with the malformed filter \<open>*_*\<close> whose base directory
  exists, after a node without a location: the evaluation ends with the exception of
  the earlier node, and the filter is not examined.
\<close>

theorem malformed_filter_missing_directory:
  "count_char ''LC_MESSAGES'' (CHR ''*'') = 0 \<and>
   handle_path empty_fs []
     (Node ELEMENT_NODE ''path''
        [(''location'', ''/usr/share/locale''), (''filter'', ''LC_MESSAGES'')] []) =
   ([], None) \<and>
   handle_path all_dirs_fs []
     (Node ELEMENT_NODE ''path'' [(''location'', ''/usr/share'')]
        [Node ELEMENT_NODE ''path'' [] [],
         Node ELEMENT_NODE ''path'' [(''location'', ''locale''), (''filter'', ''*_*'')] []]) =
   ([], Some MissingLocationAttribute)"
  by (simp add: count_char_def empty_fs_def all_dirs_fs_def getAttribute_def endswith_def
      suffix_to_prefix Let_def)

text \<open>
  C7, amended. A rule node (an element named \<open>path\<close> with a location) whose resolved
  base directory exists and whose declared filter has no wildcard marker, or more than
  one, raises the exception for a malformed filter, carrying the filter, before it
  yields anything, and the exception ends the whole evaluation: at whatever place of a
  rule tree the node stands, when the evaluation comes to that place the evaluation of
  the tree ends with this exception, and so does \<open>localization_paths\<close> over rule
  trees of which those before this tree raise nothing.
\<close>

theorem handle_path_malformed_filter:
  assumes "getAttribute attrs ''location'' \<noteq> []"
    and "isdir fs (resolved_directory (descend path frames) (getAttribute attrs ''location''))"
    and "getAttribute attrs ''filter'' \<noteq> []"
    and "count_char (getAttribute attrs ''filter'') (CHR ''*'') \<noteq> 1"
    and "reaches fs path frames"
  shows "handle_path fs (descend path frames) (Node ELEMENT_NODE ''path'' attrs children) =
           ([], Some (MalformedFilterPattern (getAttribute attrs ''filter''))) \<and>
         snd (handle_path fs path (plug frames (Node ELEMENT_NODE ''path'' attrs children))) =
           Some (MalformedFilterPattern (getAttribute attrs ''filter'')) \<and>
         (path = [] \<and> locales_to_keep \<noteq> [] \<and> snd (handle_children fs [] before) = None \<longrightarrow>
          snd (localization_paths
                 \<lparr>native_locale_names = keys,
                  paths = before @ plug frames (Node ELEMENT_NODE ''path'' attrs children) # after\<rparr>
                 fs locales_to_keep) =
            Some (MalformedFilterPattern (getAttribute attrs ''filter'')))"
proof -
  let ?node = "Node ELEMENT_NODE ''path'' attrs children"
  let ?e = "MalformedFilterPattern (getAttribute attrs ''filter'')"
  have base: "handle_path fs (descend path frames) ?node = ([], Some ?e)"
    using assms(1-4) by (auto simp: resolved_directory_def Let_def)
  then have "snd (handle_path fs (descend path frames) ?node) = Some ?e" by simp
  from plug_raises [OF assms(5) this]
  have tree: "snd (handle_path fs path (plug frames ?node)) = Some ?e" .
  have top: "snd (localization_paths
                 \<lparr>native_locale_names = keys, paths = before @ plug frames ?node # after\<rparr>
                 fs locales_to_keep) = Some ?e"
    if "path = []" and "locales_to_keep \<noteq> []" and "snd (handle_children fs [] before) = None"
    using handle_children_raises [OF that(3), of "plug frames ?node" ?e after] tree that(1)
    by (simp add: localization_paths_raises [OF that(2)])
  show ?thesis
  proof (intro conjI impI)
    show "handle_path fs (descend path frames) ?node = ([], Some ?e)" by (rule base)
    show "snd (handle_path fs path (plug frames ?node)) = Some ?e" by (rule tree)
    assume h: "path = [] \<and> locales_to_keep \<noteq> [] \<and>
               snd (handle_children fs [] before) = None"
    from h have h1: "path = []" and h2: "locales_to_keep \<noteq> []"
      and h3: "snd (handle_children fs [] before) = None" by simp_all
    show "snd (localization_paths
                 \<lparr>native_locale_names = keys, paths = before @ plug frames ?node # after\<rparr>
                 fs locales_to_keep) = Some ?e"
      by (rule top [OF h1 h2 h3])
  qed
qed

text \<open>
  The malformed node of the example tree, the tree, and the planner over three trees
  of which the example tree is the second.
\<close>

theorem handle_path_malformed_filter_witness:
  "handle_path all_dirs_fs ''/usr/share/''
     (Node ELEMENT_NODE ''path'' [(''location'', ''locale''), (''filter'', ''*_*'')] []) =
   ([], Some (MalformedFilterPattern ''*_*'')) \<and>
   snd (handle_path all_dirs_fs [] nested_rule) = Some (MalformedFilterPattern ''*_*'') \<and>
   snd (localization_paths
          \<lparr>native_locale_names = native_locale_names_keys,
           paths = [Node ELEMENT_NODE ''path'' [(''location'', ''/usr/lib'')] [], nested_rule,
                    Node ELEMENT_NODE ''path'' [(''location'', ''/opt'')] []]\<rparr>
          all_dirs_fs [''en'']) =
   Some (MalformedFilterPattern ''*_*'')"
proof -
  let ?attrs = "[(''location'', ''locale''), (''filter'', ''*_*'')]"
  let ?frames = "[Frame [(''location'', ''/usr/share'')]
                    [Node TEXT_NODE ''#text'' [] [],
                     Node ELEMENT_NODE ''path'' [(''location'', ''omf'')] []]
                    [Node ELEMENT_NODE ''path'' [(''location'', ''doc'')] []]]"
  let ?before = "[Node ELEMENT_NODE ''path'' [(''location'', ''/usr/lib'')] []]"
  have d: "descend [] ?frames = ''/usr/share/''"
    by (simp add: resolved_directory_def getAttribute_def endswith_def suffix_to_prefix)
  have a: "getAttribute ?attrs ''location'' \<noteq> []" by (simp add: getAttribute_def)
  have b: "isdir all_dirs_fs
             (resolved_directory (descend [] ?frames) (getAttribute ?attrs ''location''))"
    by (simp add: all_dirs_fs_def)
  have c: "getAttribute ?attrs ''filter'' \<noteq> []" by (simp add: getAttribute_def)
  have e: "count_char (getAttribute ?attrs ''filter'') (CHR ''*'') \<noteq> 1"
    by (simp add: getAttribute_def count_char_def)
  have f: "getAttribute ?attrs ''filter'' = ''*_*''" by (simp add: getAttribute_def)
  have r: "reaches all_dirs_fs [] ?frames"
    by (simp add: all_dirs_fs_def getAttribute_def resolved_directory_def endswith_def
        suffix_to_prefix count_char_def Let_def)
  have p: "plug ?frames (Node ELEMENT_NODE ''path'' ?attrs []) = nested_rule"
    by (simp add: nested_rule_def)
  have k: "[''en''] \<noteq> ([] :: string list)" by simp
  have h: "snd (handle_children all_dirs_fs [] ?before) = None"
    by (simp add: all_dirs_fs_def getAttribute_def endswith_def suffix_to_prefix count_char_def
        Let_def)
  from handle_path_malformed_filter [OF a b c e r, of "[]" "[''en'']" ?before
      native_locale_names_keys "[Node ELEMENT_NODE ''path'' [(''location'', ''/opt'')] []]"]
    k h
  show ?thesis unfolding d f p by simp
qed

section \<open>The read loop of apt_autoclean\<close>

lemma del_pattern_empty: "re_match del_pattern [] = None"
  by (simp add: re_match_def del_pattern_def)

lemma add_pkg_bytes_passes:
  "\<not> isl (add_pkg_bytes to_bytes 0 line) \<Longrightarrow>
   add_pkg_bytes to_bytes acc line = Inr (acc + line_bytes to_bytes line)"
  by (auto simp: add_pkg_bytes_def line_bytes_def Let_def split: option.splits sum.splits)

text \<open>Reads that the loop passes add their bytes, and the loop goes on with the rest.\<close>

lemma apt_loop_passes:
  "list_all (apt_passes to_bytes) pre \<Longrightarrow>
   apt_autoclean_loop to_bytes acc (pre @ rest) =
   apt_autoclean_loop to_bytes
     (acc + sum_list (map (\<lambda>r. line_bytes to_bytes (remove_newlines (rd_line r))) pre)) rest"
proof (induction pre arbitrary: acc)
  case Nil
  show ?case by simp
next
  case (Cons r pre)
  from Cons.prems have r: "apt_passes to_bytes r" and pre: "list_all (apt_passes to_bytes) pre"
    by simp_all
  let ?line = "remove_newlines (rd_line r)"
  from r have a: "\<not> startswith ?line ''E: ''"
    and b: "add_pkg_bytes to_bytes acc ?line = Inr (acc + line_bytes to_bytes ?line)"
    and c: "\<not> ([] = ?line \<and> rd_poll r \<noteq> None)"
    by (auto simp: apt_passes_def add_pkg_bytes_passes last_read_def)
  have "apt_autoclean_loop to_bytes acc ((r # pre) @ rest) =
        apt_autoclean_loop to_bytes (acc + line_bytes to_bytes ?line) (pre @ rest)"
    using a b c by (auto simp: Let_def)
  also have "\<dots> = apt_autoclean_loop to_bytes
     (acc + line_bytes to_bytes ?line +
      sum_list (map (\<lambda>r. line_bytes to_bytes (remove_newlines (rd_line r))) pre)) rest"
    by (rule Cons.IH [OF pre])
  finally show ?case by (simp add: add.assoc)
qed

lemma apt_loop_last:
  assumes "last_read final"
  shows "apt_autoclean_loop to_bytes acc (final # post) = Some (Inr acc)"
proof -
  from assms have l: "remove_newlines (rd_line final) = []" and p: "rd_poll final \<noteq> None"
    by (simp_all add: last_read_def)
  show ?thesis
    using p by (simp add: l startswith_def add_pkg_bytes_def del_pattern_empty)
qed

lemma apt_loop_fatal:
  assumes "startswith (remove_newlines (rd_line r)) ''E: ''"
  shows "apt_autoclean_loop to_bytes acc (r # post) =
           Some (Inl (FatalCommandOutput (remove_newlines (rd_line r))))"
  using assms by (simp add: Let_def)

lemma apt_autoclean_passes_last:
  assumes "exe_exists ''apt-get''" and "list_all (apt_passes to_bytes) pre"
    and "last_read final"
  shows "apt_autoclean to_bytes exe_exists (pre @ final # post) =
           Some (Inr (sum_list
             (map (\<lambda>r. line_bytes to_bytes (remove_newlines (rd_line r))) pre)))"
proof -
  have "apt_autoclean_loop to_bytes 0 (pre @ final # post) =
          Some (Inr (0 + sum_list
            (map (\<lambda>r. line_bytes to_bytes (remove_newlines (rd_line r))) pre)))"
    unfolding apt_loop_passes [OF assms(2)] by (rule apt_loop_last [OF assms(3)])
  then show ?thesis using assms(1) by (simp add: apt_autoclean_def)
qed

text \<open>The example reads.\<close>

lemma clean_read_line:
  "newline \<notin> set text \<Longrightarrow> remove_newlines (rd_line (read_line text)) = text"
  by (auto simp: read_line_def remove_newlines_def filter_id_conv)

lemma poll_read_line: "rd_poll (read_line text) = None"
  by (simp add: read_line_def)

lemma last_read_end: "last_read (read_end returncode)"
  by (simp add: last_read_def read_end_def remove_newlines_def)

lemma example_clean:
  "remove_newlines (rd_line (read_line ''Del foo 1.0 [1165kB]'')) = ''Del foo 1.0 [1165kB]''"
  "remove_newlines (rd_line (read_line ''Del bar 2.1 [74.7MB]'')) = ''Del bar 2.1 [74.7MB]''"
  "remove_newlines (rd_line (read_line ''E: something failed'')) = ''E: something failed''"
  "remove_newlines (rd_line (read_line ''Reading package lists...'')) =
     ''Reading package lists...''"
  "remove_newlines (rd_line (read_line [])) = []"
  by (simp_all add: clean_read_line newline_def)

lemma example_del_line:
  "re_match del_pattern ''Del foo 1.0 [1165kB]'' = Some [Some ''1165kB'']"
  "re_match del_pattern ''Del bar 2.1 [74.7MB]'' = Some [Some ''74.7MB'']"
  "re_match del_pattern ''Reading package lists...'' = None"
  by (simp_all add: re_match_def del_pattern_def char_classes newline_def)

lemma example_size:
  "human_to_bytes (upper ''1165kB'') = Inr (1165 * 1000)"
  "human_to_bytes (upper ''74.7MB'') = Inr (74700 * 1000)"
  by (simp_all add: human_to_bytes_def upper_def upper_char_def char_classes startswith_def
      unit_multiplier_def decimal_def digit_value_def Let_def)

lemma example_passes:
  "apt_passes human_to_bytes (read_line ''Del foo 1.0 [1165kB]'')"
  "apt_passes human_to_bytes (read_line ''Del bar 2.1 [74.7MB]'')"
  "apt_passes human_to_bytes (read_line ''Reading package lists...'')"
  "apt_passes human_to_bytes (read_line [])"
  by (simp_all add: apt_passes_def last_read_def example_clean poll_read_line startswith_def
      add_pkg_bytes_def example_del_line del_pattern_empty group_text_def example_size)

lemma example_line_bytes:
  "line_bytes human_to_bytes ''Del foo 1.0 [1165kB]'' = 1165 * 1000"
  "line_bytes human_to_bytes ''Del bar 2.1 [74.7MB]'' = 74700 * 1000"
  "line_bytes human_to_bytes ''Reading package lists...'' = 0"
  "line_bytes human_to_bytes [] = 0"
  by (simp_all add: line_bytes_def example_del_line del_pattern_empty group_text_def
      example_size)

text \<open>A total that the loop returns is the sum over the reads before its last.\<close>

lemma add_pkg_bytes_Inr:
  "add_pkg_bytes to_bytes acc line = Inr t \<Longrightarrow> t = acc + line_bytes to_bytes line"
  by (auto simp: add_pkg_bytes_def line_bytes_def Let_def split: option.splits sum.splits)

lemma line_bytes_empty: "line_bytes to_bytes [] = 0"
  by (simp add: line_bytes_def del_pattern_empty)

lemma apt_loop_returns:
  "apt_autoclean_loop to_bytes acc reads = Some (Inr returned) \<Longrightarrow>
   returned = acc + sum_list (map (\<lambda>r. line_bytes to_bytes (remove_newlines (rd_line r)))
                               (lines_read reads))"
proof (induction reads arbitrary: acc)
  case Nil
  then show ?case by simp
next
  case (Cons r reads)
  let ?line = "remove_newlines (rd_line r)"
  from Cons.prems have ne: "\<not> startswith ?line ''E: ''"
    by (auto simp: Let_def split: if_splits)
  from Cons.prems ne obtain t where t: "add_pkg_bytes to_bytes acc ?line = Inr t"
    by (cases "add_pkg_bytes to_bytes acc ?line") (auto simp: Let_def)
  have t': "t = acc + line_bytes to_bytes ?line" by (rule add_pkg_bytes_Inr [OF t])
  show ?case
  proof (cases "last_read r")
    case True
    then have l: "?line = []" and p: "rd_poll r \<noteq> None" by (simp_all add: last_read_def)
    from Cons.prems ne t l p have "returned = t" by (auto simp: Let_def)
    then show ?thesis using True t' l by (simp add: lines_read_def line_bytes_empty)
  next
    case False
    then have c: "\<not> ([] = ?line \<and> rd_poll r \<noteq> None)" by (auto simp: last_read_def)
    from Cons.prems ne t c have "apt_autoclean_loop to_bytes t reads = Some (Inr returned)"
      by (auto simp: Let_def)
    from Cons.IH [OF this] show ?thesis using False t' by (simp add: lines_read_def)
  qed
qed

lemma apt_autoclean_returns:
  assumes "apt_autoclean to_bytes exe_exists reads = Some (Inr returned)"
  shows "returned = sum_list (map (\<lambda>r. line_bytes to_bytes (remove_newlines (rd_line r)))
                               (lines_read reads))"
proof -
  from assms have "apt_autoclean_loop to_bytes 0 reads = Some (Inr returned)"
    by (auto simp: apt_autoclean_def split: if_splits)
  from apt_loop_returns [OF this] show ?thesis by simp
qed

text \<open>More example reads.\<close>

lemma clean_read_line_ended:
  "newline \<notin> set text \<Longrightarrow> remove_newlines (rd_line (read_line_ended text rc)) = text"
  by (auto simp: read_line_ended_def remove_newlines_def filter_id_conv)

lemma last_read_blank_ended: "last_read (read_line_ended [] rc)"
  by (simp add: last_read_def read_line_ended_def remove_newlines_def)

lemma not_last_read_line: "text \<noteq> [] \<Longrightarrow> newline \<notin> set text \<Longrightarrow> \<not> last_read (read_line text)"
  by (simp add: last_read_def clean_read_line)

lemma small_examples:
  "remove_newlines (rd_line (read_line ''Del a 1.0 [1kB]'')) = ''Del a 1.0 [1kB]''"
  "remove_newlines (rd_line (read_line ''Del b 1.0 [2kB]'')) = ''Del b 1.0 [2kB]''"
  "remove_newlines (rd_line (read_line ''Del foo 1.0 [1.2.3kB]'')) = ''Del foo 1.0 [1.2.3kB]''"
  "remove_newlines (rd_line (read_line ''E: first'')) = ''E: first''"
  "remove_newlines (rd_line (read_line ''E: second'')) = ''E: second''"
  "remove_newlines (rd_line (read_line_ended [] 0)) = []"
  by (simp_all add: clean_read_line clean_read_line_ended newline_def)

lemma clean_read_end: "remove_newlines (rd_line (read_end returncode)) = []"
  by (simp add: read_end_def remove_newlines_def)

lemma apt_loop_rejected:
  assumes "\<not> startswith (remove_newlines (rd_line r)) ''E: ''"
    and "add_pkg_bytes to_bytes acc (remove_newlines (rd_line r)) = Inl e"
  shows "apt_autoclean_loop to_bytes acc (r # post) = Some (Inl e)"
  using assms by (simp add: Let_def)

lemma small_del_lines:
  "re_match del_pattern ''Del a 1.0 [1kB]'' = Some [Some ''1kB'']"
  "re_match del_pattern ''Del b 1.0 [2kB]'' = Some [Some ''2kB'']"
  "re_match del_pattern ''Del foo 1.0 [1.2.3kB]'' = Some [Some ''1.2.3kB'']"
  by (simp_all add: re_match_def del_pattern_def char_classes newline_def)

lemma small_sizes:
  "human_to_bytes (upper ''1kB'') = Inr 1000"
  "human_to_bytes (upper ''2kB'') = Inr 2000"
  "human_to_bytes (upper ''1.2.3kB'') = Inl (InvalidSize ''1.2.3KB'')"
  by (simp_all add: human_to_bytes_def upper_def upper_char_def char_classes startswith_def
      unit_multiplier_def decimal_def digit_value_def Let_def)

lemma small_line_bytes:
  "line_bytes human_to_bytes ''Del a 1.0 [1kB]'' = 1000"
  "line_bytes human_to_bytes ''Del b 1.0 [2kB]'' = 2000"
  by (simp_all add: line_bytes_def small_del_lines group_text_def small_sizes)

lemma small_passes: "apt_passes human_to_bytes (read_line ''Del a 1.0 [1kB]'')"
  by (simp add: apt_passes_def last_read_def small_examples poll_read_line startswith_def
      add_pkg_bytes_def small_del_lines group_text_def small_sizes)

text \<open>
  A blank line is read when the process has already ended, between two lines that
  match the \<open>Del\<close> pattern: \<open>apt_autoclean\<close> returns the bytes of the first line,
  1000, where the lines of the stream that match the pattern sum to 3000.
\<close>

theorem blank_line_ends_total:
  "apt_autoclean human_to_bytes (\<lambda>exe. True)
     [read_line ''Del a 1.0 [1kB]'', read_line_ended [] 0, read_line ''Del b 1.0 [2kB]'',
      read_end 0] = Some (Inr 1000) \<and>
   sum_list (map (\<lambda>r. line_bytes human_to_bytes (remove_newlines (rd_line r)))
     [read_line ''Del a 1.0 [1kB]'', read_line_ended [] 0, read_line ''Del b 1.0 [2kB]'',
      read_end 0]) = 3000"
proof -
  have a: "apt_autoclean human_to_bytes (\<lambda>exe. True)
     ([read_line ''Del a 1.0 [1kB]''] @ read_line_ended [] 0 #
      [read_line ''Del b 1.0 [2kB]'', read_end 0]) = Some (Inr 1000)"
    using apt_autoclean_passes_last [where exe_exists = "\<lambda>exe. True"
        and to_bytes = human_to_bytes and pre = "[read_line ''Del a 1.0 [1kB]'']"
        and final = "read_line_ended [] 0"
        and post = "[read_line ''Del b 1.0 [2kB]'', read_end 0]"]
    by (simp add: small_passes last_read_blank_ended small_examples small_line_bytes)
  have b: "sum_list (map (\<lambda>r. line_bytes human_to_bytes (remove_newlines (rd_line r)))
     [read_line ''Del a 1.0 [1kB]'', read_line_ended [] 0, read_line ''Del b 1.0 [2kB]'',
      read_end 0]) = 3000"
    by (simp add: small_examples clean_read_end small_line_bytes line_bytes_empty)
  from a b show ?thesis by simp
qed

text \<open>
  C2, amended. When \<open>apt-get\<close> exists: on the stream of the one line
  \<open>Del foo 1.0 [1165kB]\<close>, then the end of the stream with exit status 0,
  \<open>apt_autoclean\<close> with the size parser of the decimal convention returns
  \<open>1165 * 1000\<close>; and with any size parser, a total that \<open>apt_autoclean\<close> returns
  is the sum, over the lines read before the loop ends (those before the first empty
  line read once the process has ended), of the bytes of the upper-cased size token of
  each line that matches the \<open>Del\<close> pattern. A total is returned when the reads before
  the loop's last are passed: none starts with \<open>E: \<close> and the parser accepts every
  size token.
\<close>

theorem apt_autoclean_total:
  assumes "exe_exists ''apt-get''"
  shows "apt_autoclean human_to_bytes exe_exists
           [read_line ''Del foo 1.0 [1165kB]'', read_end 0] = Some (Inr (1165 * 1000)) \<and>
         (apt_autoclean to_bytes exe_exists reads = Some (Inr returned) \<longrightarrow>
          returned = sum_list (map (\<lambda>r. line_bytes to_bytes (remove_newlines (rd_line r)))
                                (lines_read reads))) \<and>
         (list_all (apt_passes to_bytes) pre \<and> last_read final \<longrightarrow>
          apt_autoclean to_bytes exe_exists (pre @ final # post) =
            Some (Inr (sum_list
              (map (\<lambda>r. line_bytes to_bytes (remove_newlines (rd_line r))) pre))))"
proof -
  have general: "apt_autoclean f exe_exists (xs @ x # ys) =
           Some (Inr (sum_list (map (\<lambda>r. line_bytes f (remove_newlines (rd_line r))) xs)))"
    if "list_all (apt_passes f) xs" and "last_read x" for f xs x ys
    using assms that
      apt_autoclean_passes_last [where exe_exists = exe_exists and to_bytes = f and pre = xs
        and final = x and post = ys]
    by simp
  have p: "list_all (apt_passes human_to_bytes) [read_line ''Del foo 1.0 [1165kB]'']"
    by (simp add: example_passes)
  have "apt_autoclean human_to_bytes exe_exists
          ([read_line ''Del foo 1.0 [1165kB]''] @ read_end 0 # []) = Some (Inr (1165 * 1000))"
    unfolding general [OF p last_read_end]
    by (simp add: example_clean example_line_bytes)
  then show ?thesis using general apt_autoclean_returns by simp
qed

text \<open>
  Two deleted packages and a blank line before the process ends: the lines read are
  the three before the end of the stream, and the total is the sum of the two sizes.
\<close>

theorem apt_autoclean_total_witness:
  "apt_autoclean human_to_bytes (\<lambda>exe. True)
     [read_line ''Del foo 1.0 [1165kB]'', read_line ''Del bar 2.1 [74.7MB]'', read_line [],
      read_end 0] =
   Some (Inr (1165 * 1000 + 74700 * 1000)) \<and>
   lines_read [read_line ''Del foo 1.0 [1165kB]'', read_line ''Del bar 2.1 [74.7MB]'',
               read_line [], read_end 0] =
     [read_line ''Del foo 1.0 [1165kB]'', read_line ''Del bar 2.1 [74.7MB]'', read_line []]"
proof -
  let ?pre = "[read_line ''Del foo 1.0 [1165kB]'', read_line ''Del bar 2.1 [74.7MB]'',
               read_line []]"
  have p: "list_all (apt_passes human_to_bytes) ?pre"
    by (simp add: example_passes)
  have b: "sum_list (map (\<lambda>r. line_bytes human_to_bytes (remove_newlines (rd_line r))) ?pre) =
           1165 * 1000 + 74700 * 1000"
    by (simp add: example_clean example_line_bytes)
  note inst = apt_autoclean_total [where exe_exists = "\<lambda>exe. True" and to_bytes = human_to_bytes
      and pre = ?pre and final = "read_end 0" and post = "[]"
      and reads = "?pre @ [read_end 0]" and returned = "1165 * 1000 + 74700 * 1000"]
  from p last_read_end [of 0] inst
  have r: "apt_autoclean human_to_bytes (\<lambda>exe. True) (?pre @ read_end 0 # []) =
          Some (Inr (sum_list
            (map (\<lambda>r. line_bytes human_to_bytes (remove_newlines (rd_line r))) ?pre)))"
    by blast
  then have r': "apt_autoclean human_to_bytes (\<lambda>exe. True) (?pre @ [read_end 0]) =
          Some (Inr (1165 * 1000 + 74700 * 1000))"
    unfolding b by simp
  have l: "lines_read (?pre @ [read_end 0]) = ?pre"
    using example_passes last_read_end [of 0]
    by (simp add: lines_read_def apt_passes_def)
  from r' l show ?thesis by simp
qed

text \<open>
  Three streams with a line that starts with \<open>E: \<close>. A blank line is read before
  it when the process has already ended: \<open>apt_autoclean\<close> returns the total, 0. A
  line before it has a size token that the parser rejects: the exception is the
  parser's. Another line that starts with \<open>E: \<close> stands before it: the exception
  carries that earlier line.
\<close>

theorem fatal_line_not_reached:
  "apt_autoclean human_to_bytes (\<lambda>exe. True)
     [read_line_ended [] 0, read_line ''E: something failed'', read_end 100] = Some (Inr 0) \<and>
   apt_autoclean human_to_bytes (\<lambda>exe. True)
     [read_line ''Del foo 1.0 [1.2.3kB]'', read_line ''E: something failed'', read_end 100] =
     Some (Inl (InvalidSize ''1.2.3KB'')) \<and>
   apt_autoclean human_to_bytes (\<lambda>exe. True)
     [read_line ''E: first'', read_line ''E: second'', read_end 100] =
     Some (Inl (FatalCommandOutput ''E: first''))"
proof -
  have a: "apt_autoclean human_to_bytes (\<lambda>exe. True)
     [read_line_ended [] 0, read_line ''E: something failed'', read_end 100] = Some (Inr 0)"
    using apt_loop_last [OF last_read_blank_ended, of human_to_bytes 0 0
        "[read_line ''E: something failed'', read_end 100]"]
    by (simp add: apt_autoclean_def)
  have r1: "\<not> startswith (remove_newlines (rd_line (read_line ''Del foo 1.0 [1.2.3kB]''))) ''E: ''"
    by (simp add: small_examples startswith_def)
  have r2: "add_pkg_bytes human_to_bytes 0
              (remove_newlines (rd_line (read_line ''Del foo 1.0 [1.2.3kB]''))) =
            Inl (InvalidSize ''1.2.3KB'')"
    by (simp add: small_examples add_pkg_bytes_def small_del_lines group_text_def small_sizes)
  have "apt_autoclean_loop human_to_bytes 0
     (read_line ''Del foo 1.0 [1.2.3kB]'' # [read_line ''E: something failed'', read_end 100]) =
     Some (Inl (InvalidSize ''1.2.3KB''))"
    by (rule apt_loop_rejected [OF r1 r2])
  then have b: "apt_autoclean human_to_bytes (\<lambda>exe. True)
     [read_line ''Del foo 1.0 [1.2.3kB]'', read_line ''E: something failed'', read_end 100] =
     Some (Inl (InvalidSize ''1.2.3KB''))"
    by (simp add: apt_autoclean_def del: apt_autoclean_loop.simps)
  have "startswith (remove_newlines (rd_line (read_line ''E: first''))) ''E: ''"
    by (simp add: small_examples startswith_def)
  from apt_loop_fatal [OF this, of human_to_bytes 0 "[read_line ''E: second'', read_end 100]"]
  have c: "apt_autoclean human_to_bytes (\<lambda>exe. True)
     [read_line ''E: first'', read_line ''E: second'', read_end 100] =
     Some (Inl (FatalCommandOutput ''E: first''))"
    by (simp add: apt_autoclean_def small_examples del: apt_autoclean_loop.simps)
  from a b c show ?thesis by simp
qed

text \<open>
  C3, amended. When \<open>apt-get\<close> exists and the loop reads a line that starts with
  \<open>E: \<close>, the first such line (the reads before it are passed: none is an empty
  line read once the process has ended, none starts with \<open>E: \<close>, and the parser
  accepts every size token), \<open>apt_autoclean\<close> raises the exception for fatal output
  carrying that line without its newline, and no total is returned, however many lines
  with sizes came before and whatever follows.
\<close>

theorem apt_autoclean_fatal:
  assumes "exe_exists ''apt-get''"
    and "list_all (apt_passes to_bytes) pre"
    and "startswith (remove_newlines (rd_line r)) ''E: ''"
  shows "apt_autoclean to_bytes exe_exists (pre @ r # post) =
           Some (Inl (FatalCommandOutput (remove_newlines (rd_line r))))"
proof -
  have "apt_autoclean_loop to_bytes 0 (pre @ r # post) =
          Some (Inl (FatalCommandOutput (remove_newlines (rd_line r))))"
    unfolding apt_loop_passes [OF assms(2)] by (rule apt_loop_fatal [OF assms(3)])
  then show ?thesis using assms(1) by (simp add: apt_autoclean_def)
qed

theorem apt_autoclean_fatal_witness:
  "apt_autoclean human_to_bytes (\<lambda>exe. True)
     [read_line ''Del foo 1.0 [1165kB]'', read_line ''E: something failed'',
      read_line ''Del bar 2.1 [74.7MB]'', read_end 100] =
   Some (Inl (FatalCommandOutput ''E: something failed''))"
proof -
  have p: "list_all (apt_passes human_to_bytes) [read_line ''Del foo 1.0 [1165kB]'']"
    by (simp add: example_passes)
  have f: "startswith (remove_newlines (rd_line (read_line ''E: something failed''))) ''E: ''"
    by (simp add: example_clean startswith_def)
  from p f
    apt_autoclean_fatal [where exe_exists = "\<lambda>exe. True" and to_bytes = human_to_bytes
      and pre = "[read_line ''Del foo 1.0 [1165kB]'']"
      and r = "read_line ''E: something failed''"
      and post = "[read_line ''Del bar 2.1 [74.7MB]'', read_end 100]"]
  show ?thesis by (simp add: example_clean)
qed

section \<open>The read loop of yum_clean\<close>

lemma baseline_Cons:
  "baseline size_before (r # rs) =
     baseline (if lock_line (remove_newlines (rd_line r)) then rd_size r else size_before) rs"
  by (simp add: baseline_def split: list.splits)

lemma last_long_line_Cons:
  "last_long_line initial (r # rs) =
     last_long_line (if length (remove_newlines (rd_line r)) > 2
                     then remove_newlines (rd_line r) else initial) rs"
  by (simp add: last_long_line_def split: list.splits)

text \<open>
  Reads that the loop passes leave \<open>old_size\<close> at the baseline and
  \<open>non_blank_line\<close> at the last long line, and the loop goes on with the rest.
\<close>

lemma yum_loop_passes:
  "list_all yum_passes pre \<Longrightarrow>
   snd (yum_loop old_size non_blank_line (pre @ rest)) =
   snd (yum_loop (baseline old_size pre) (last_long_line non_blank_line pre) rest)"
proof (induction pre arbitrary: old_size non_blank_line)
  case Nil
  show ?case by (simp add: baseline_def last_long_line_def)
next
  case (Cons r pre)
  from Cons.prems have r: "yum_passes r" and pre: "list_all yum_passes pre" by simp_all
  let ?line = "remove_newlines (rd_line r)"
  let ?old = "if lock_line ?line then rd_size r else old_size"
  let ?nbl = "if length ?line > 2 then ?line else non_blank_line"
  from r have a: "\<not> contains ?line ''You need to be root''"
    "\<not> contains ?line ''Cannot remove rpmdb file''"
    and c: "(if [] = ?line then rd_poll r else None) = None"
    by (auto simp: yum_passes_def fatal_line_def last_read_def)
  have "snd (yum_loop old_size non_blank_line ((r # pre) @ rest)) =
        snd (yum_loop ?old ?nbl (pre @ rest))"
    using a c by (simp add: Let_def lock_line_def)
  also have "\<dots> = snd (yum_loop (baseline ?old pre) (last_long_line ?nbl pre) rest)"
    by (rule Cons.IH [OF pre])
  finally show ?case by (simp only: baseline_Cons last_long_line_Cons)
qed

lemma yum_loop_last:
  assumes "last_read final" and "rd_poll final = Some returncode"
  shows "snd (yum_loop old_size non_blank_line (final # post)) =
           Some (Inr (old_size, non_blank_line, returncode, rd_size final))"
proof -
  from assms have l: "remove_newlines (rd_line final) = []" by (simp add: last_read_def)
  show ?thesis using assms(2) by (simp add: l)
qed

lemma yum_clean_result:
  assumes "\<not> path_exists ''/var/run/yum.pid''" and "exe_exists ''yum''"
    and "list_all yum_passes pre" and "last_read final" and "rd_poll final = Some returncode"
  shows "snd (yum_clean path_exists exe_exists size_before (pre @ final # post)) =
           (if returncode > 0 then Some (Inl (CommandFailed (last_long_line [] pre)))
            else Some (Inr (baseline size_before pre - rd_size final)))"
proof -
  have "snd (yum_loop size_before [] (pre @ final # post)) =
          Some (Inr (baseline size_before pre, last_long_line [] pre, returncode,
                     rd_size final))"
    unfolding yum_loop_passes [OF assms(3)] by (rule yum_loop_last [OF assms(4,5)])
  then obtain calls where "yum_loop size_before [] (pre @ final # post) =
      (calls, Some (Inr (baseline size_before pre, last_long_line [] pre, returncode,
         rd_size final)))"
    by (cases "yum_loop size_before [] (pre @ final # post)") simp
  then show ?thesis using assms(1,2) by (simp add: yum_clean_def)
qed

text \<open>The example reads.\<close>

lemma clean_yum_line:
  "newline \<notin> set text \<Longrightarrow> remove_newlines (rd_line (yum_line text bytes)) = text"
  by (auto simp: yum_line_def remove_newlines_def filter_id_conv)

lemma yum_line_fields:
  "rd_poll (yum_line text bytes) = None" "rd_size (yum_line text bytes) = bytes"
  by (simp_all add: yum_line_def)

lemma yum_end_fields:
  "remove_newlines (rd_line (yum_end returncode bytes)) = []"
  "rd_poll (yum_end returncode bytes) = Some returncode"
  "rd_size (yum_end returncode bytes) = bytes"
  by (simp_all add: yum_end_def remove_newlines_def)

lemma yum_passes_line:
  "newline \<notin> set text \<Longrightarrow> text \<noteq> [] \<Longrightarrow> \<not> fatal_line text \<Longrightarrow>
   yum_passes (yum_line text bytes)"
  by (simp add: yum_passes_def last_read_def clean_yum_line)

lemma yum_passes_blank: "yum_passes (yum_line [] bytes)"
  by (simp add: yum_passes_def last_read_def yum_line_fields clean_yum_line fatal_line_def)

lemma not_fatal_examples:
  "\<not> fatal_line ''Another app is currently holding the yum lock; waiting for it to exit...''"
  "\<not> fatal_line ''Cleaning up everything''"
  "\<not> fatal_line ''Error: Cannot retrieve repository metadata''"
  "\<not> fatal_line ''ab''"
  by (simp_all add: fatal_line_def)

lemma lock_examples:
  "lock_line ''Another app is currently holding the yum lock; waiting for it to exit...''"
  "\<not> lock_line ''Cleaning up everything''"
  by (simp_all add: lock_line_def)

lemma example_failed_reads:
  "list_all yum_passes
     [yum_line ''Error: Cannot retrieve repository metadata'' 1000, yum_line ''ab'' 1000]"
  "last_long_line []
     [yum_line ''Error: Cannot retrieve repository metadata'' 1000, yum_line ''ab'' 1000] =
   ''Error: Cannot retrieve repository metadata''"
  by (simp_all add: yum_passes_line not_fatal_examples last_long_line_def clean_yum_line
      newline_def)

text \<open>
  The process of \<open>apt_autoclean\<close> ends with exit status 100 after a line that is not
  fatal: \<open>apt_autoclean\<close> returns the total, 0. The process of \<open>yum_clean\<close> ends
  with exit status 1 after the line \<open>ab\<close>: the exception carries the line before it,
  the last of more than two characters.
\<close>

theorem exit_status_counterexample:
  "apt_autoclean human_to_bytes (\<lambda>exe. True)
     [read_line ''Reading package lists...'', read_end 100] = Some (Inr 0) \<and>
   snd (yum_clean (\<lambda>p. False) (\<lambda>exe. True) 1000
     [yum_line ''Error: Cannot retrieve repository metadata'' 1000, yum_line ''ab'' 1000,
      yum_end 1 1000]) =
   Some (Inl (CommandFailed ''Error: Cannot retrieve repository metadata''))"
proof -
  have p: "list_all (apt_passes human_to_bytes) [read_line ''Reading package lists...'']"
    by (simp add: example_passes)
  have a: "apt_autoclean human_to_bytes (\<lambda>exe. True)
     ([read_line ''Reading package lists...''] @ read_end 100 # []) = Some (Inr 0)"
    using p last_read_end [of 100]
      apt_autoclean_passes_last [where exe_exists = "\<lambda>exe. True" and to_bytes = human_to_bytes
        and pre = "[read_line ''Reading package lists...'']" and final = "read_end 100"
        and post = "[]"]
    by (simp add: example_clean example_line_bytes)
  have b: "snd (yum_clean (\<lambda>p. False) (\<lambda>exe. True) 1000
     ([yum_line ''Error: Cannot retrieve repository metadata'' 1000, yum_line ''ab'' 1000] @
      yum_end 1 1000 # [])) =
   Some (Inl (CommandFailed ''Error: Cannot retrieve repository metadata''))"
    using example_failed_reads
      yum_clean_result [where path_exists = "\<lambda>p. False" and exe_exists = "\<lambda>exe. True"
        and pre = "[yum_line ''Error: Cannot retrieve repository metadata'' 1000,
                    yum_line ''ab'' 1000]"
        and final = "yum_end 1 1000" and returncode = 1 and size_before = 1000 and post = "[]"]
    by (simp add: last_read_def yum_end_fields)
  from a b show ?thesis by simp
qed

text \<open>
  C4, amended. For \<open>yum_clean\<close>: when the pid file does not exist, \<open>yum\<close> exists,
  the reads up to the loop's last are passed (no line has one of the two fatal texts)
  and the process has ended with an exit status greater than 0, \<open>yum_clean\<close> raises
  the exception for a failed command, carrying the last line read that has more than
  two characters (the empty string when there is none), and returns no byte count.
\<close>

theorem yum_clean_command_failed:
  assumes "\<not> path_exists ''/var/run/yum.pid''" and "exe_exists ''yum''"
    and "list_all yum_passes pre" and "last_read final" and "rd_poll final = Some returncode"
    and "returncode > 0"
  shows "snd (yum_clean path_exists exe_exists size_before (pre @ final # post)) =
           Some (Inl (CommandFailed (last_long_line [] pre)))"
  using assms
    yum_clean_result [where path_exists = path_exists and exe_exists = exe_exists
      and pre = pre and final = final and returncode = returncode
      and size_before = size_before and post = post]
  by simp

theorem yum_clean_command_failed_witness:
  "snd (yum_clean (\<lambda>p. False) (\<lambda>exe. True) 1000
     [yum_line ''Cleaning up everything'' 1000,
      yum_line ''Error: Cannot retrieve repository metadata'' 1000, yum_end 1 1000]) =
   Some (Inl (CommandFailed ''Error: Cannot retrieve repository metadata''))"
proof -
  let ?pre = "[yum_line ''Cleaning up everything'' 1000,
               yum_line ''Error: Cannot retrieve repository metadata'' 1000]"
  have c: "list_all yum_passes ?pre"
    by (simp add: yum_passes_line not_fatal_examples newline_def)
  have d: "last_read (yum_end 1 1000)" by (simp add: last_read_def yum_end_fields)
  have e: "rd_poll (yum_end 1 1000) = Some 1" by (simp add: yum_end_fields)
  have g: "(1::int) > 0" by simp
  have f: "last_long_line [] ?pre = ''Error: Cannot retrieve repository metadata''"
    by (simp add: last_long_line_def clean_yum_line newline_def)
  from c d e g
    yum_clean_command_failed [where path_exists = "\<lambda>p. False"
      and exe_exists = "\<lambda>exe. True" and pre = ?pre and final = "yum_end 1 1000"
      and returncode = 1 and size_before = 1000 and post = "[]"]
  show ?thesis
    by (simp add: f)
qed

text \<open>
  C9. When the pid file does not exist, \<open>yum\<close> exists, the reads up to the loop's
  last are passed (no line has one of the two fatal texts; lines with the lock text
  are among those passed) and the process has ended with exit status 0,
  \<open>yum_clean\<close> returns the baseline minus the size of the directory after the loop:
  the baseline is the size of the directory at the last line with the lock text, or
  the size before the command when there is no such line. Nothing else of the lines
  read enters the result.
\<close>

theorem yum_clean_freed:
  assumes "\<not> path_exists ''/var/run/yum.pid''" and "exe_exists ''yum''"
    and "list_all yum_passes pre" and "last_read final" and "rd_poll final = Some 0"
  shows "snd (yum_clean path_exists exe_exists size_before (pre @ final # post)) =
           Some (Inr (baseline size_before pre - rd_size final))"
  using assms
    yum_clean_result [where path_exists = path_exists and exe_exists = exe_exists
      and pre = pre and final = final and returncode = 0
      and size_before = size_before and post = post]
  by simp

text \<open>
  The directory has 1000 bytes before the command, 900 when the line with the lock
  text is read and 100 after the loop: 800 bytes are freed.
\<close>

theorem yum_clean_freed_witness:
  "snd (yum_clean (\<lambda>p. False) (\<lambda>exe. True) 1000
     [yum_line ''Another app is currently holding the yum lock; waiting for it to exit...'' 900,
      yum_line ''Cleaning up everything'' 800, yum_line [] 500, yum_end 0 100]) =
   Some (Inr (900 - 100))"
proof -
  let ?lock = "''Another app is currently holding the yum lock; waiting for it to exit...''"
  let ?pre = "[yum_line ?lock 900, yum_line ''Cleaning up everything'' 800, yum_line [] 500]"
  have c: "list_all yum_passes ?pre"
    by (simp add: yum_passes_line yum_passes_blank not_fatal_examples newline_def)
  have d: "last_read (yum_end 0 100)" by (simp add: last_read_def yum_end_fields)
  have e: "rd_poll (yum_end 0 100) = Some 0" by (simp add: yum_end_fields)
  have f: "baseline 1000 ?pre = 900"
    by (simp add: baseline_def clean_yum_line yum_line_fields lock_examples newline_def
        lock_line_def)
  from c d e
    yum_clean_freed [where path_exists = "\<lambda>p. False" and exe_exists = "\<lambda>exe. True"
      and pre = ?pre and final = "yum_end 0 100" and size_before = 1000 and post = "[]"]
  show ?thesis
    by (simp add: f yum_end_fields)
qed

text \<open>
  C10. When \<open>/var/run/yum.pid\<close> exists, \<open>yum_clean\<close> raises the exception that Yum
  is currently running, and the test for that file is the only call it has made: it
  has not looked for the executable, measured the directory or started a process.
\<close>

theorem yum_clean_currently_running:
  assumes "path_exists ''/var/run/yum.pid''"
  shows "yum_clean path_exists exe_exists size_before process =
           ([PathExists ''/var/run/yum.pid''], Some (Inl (CurrentlyRunning ''Yum'')))"
  using assms by (simp add: yum_clean_def)

theorem yum_clean_currently_running_witness:
  "yum_clean (\<lambda>p. p = ''/var/run/yum.pid'') (\<lambda>exe. False) 1000
     [yum_line ''Cleaning up everything'' 1000, yum_end 0 100] =
   ([PathExists ''/var/run/yum.pid''], Some (Inl (CurrentlyRunning ''Yum'')))"
  using yum_clean_currently_running [where path_exists = "\<lambda>p. p = ''/var/run/yum.pid''"
      and exe_exists = "\<lambda>exe. False" and size_before = 1000
      and process = "[yum_line ''Cleaning up everything'' 1000, yum_end 0 100]"]
  by simp

end
